theory Spec2Isabelle
  imports Complex_Main "HOL-Library.Multiset" "HOL-Library.AList"
begin

text \<open>
  A shallow embedding of the rule-matching and reconciliation engine of the BIM audit
  application: the text normalizer, the vocabulary builder and four rule checkers of
  the QA/QC page, the ingestion and comparison of the MIDP page, and the compliance
  score of the parameter page. Each function of the source is a HOL function of the
  same name; the properties of the specification follow the definitions.
\<close>

section \<open>JavaScript strings and values\<close>

text \<open>
  A JavaScript string is a sequence of UTF-16 code units; \<open>length\<close>, \<open>split\<close>,
  \<open>includes\<close> and the regular expressions without the \<open>u\<close> flag all count code
  units. A code unit is modelled as a natural number (below 65536 in every string the
  program can hold). \<open>str\<close> turns a literal of Basic Latin characters into its units.
\<close>

type_synonym jsstring = "nat list"

definition str :: "string \<Rightarrow> jsstring" where
  "str s = map of_char s"

text \<open>
  The cells of a parsed sheet and the argument of \<open>cleanText\<close> are of type \<open>any\<close>.
  Numbers are modelled for integer values.
\<close>

datatype jsval = JUndefined | JNull | JBool bool | JNum int | JStr jsstring

fun decNat :: "nat \<Rightarrow> jsstring" where
  "decNat n = (if n < 10 then [48 + n] else decNat (n div 10) @ [48 + n mod 10])"

declare decNat.simps [simp del]

text \<open>\<open>String(v)\<close>\<close>

fun toStr :: "jsval \<Rightarrow> jsstring" where
  "toStr JUndefined = str ''undefined''"
| "toStr JNull = str ''null''"
| "toStr (JBool b) = (if b then str ''true'' else str ''false'')"
| "toStr (JNum n) = (if n < 0 then 45 # decNat (nat (- n)) else decNat (nat n))"
| "toStr (JStr s) = s"

text \<open>Truthiness, \<open>v || d\<close> and \<open>v ?? d\<close>.\<close>

fun truthy :: "jsval \<Rightarrow> bool" where
  "truthy JUndefined = False"
| "truthy JNull = False"
| "truthy (JBool b) = b"
| "truthy (JNum n) = (n \<noteq> 0)"
| "truthy (JStr s) = (s \<noteq> [])"

definition orElse :: "jsval \<Rightarrow> jsval \<Rightarrow> jsval" where
  "orElse v d = (if truthy v then v else d)"

fun nullish :: "jsval \<Rightarrow> bool" where
  "nullish JUndefined = True"
| "nullish JNull = True"
| "nullish v = False"

definition coalesce :: "jsval \<Rightarrow> jsval \<Rightarrow> jsval" where
  "coalesce v d = (if nullish v then d else v)"

text \<open>
  White space and line terminators of ECMAScript: what \<open>trim\<close> removes and what
  \<open>\s\<close> matches.
\<close>

definition isWhiteSpace :: "nat \<Rightarrow> bool" where
  "isWhiteSpace c \<longleftrightarrow>
     (9 \<le> c \<and> c \<le> 13) \<or> c = 32 \<or> c = 160 \<or> c = 5760
     \<or> (8192 \<le> c \<and> c \<le> 8202) \<or> c = 8232 \<or> c = 8233 \<or> c = 8239
     \<or> c = 8287 \<or> c = 12288 \<or> c = 65279"

definition trim :: "jsstring \<Rightarrow> jsstring" where
  "trim s = rev (dropWhile isWhiteSpace (rev (dropWhile isWhiteSpace s)))"

text \<open>
  Case mapping and collation are built into the host and follow the Unicode tables and
  the locale; they are taken as parameters. \<open>asciiEnv\<close> is the instance that maps
  Basic Latin letters and compares by code unit: on strings of Basic Latin characters it
  computes the case mappings of ECMAScript.
\<close>

record jsenv =
  toLowerCase :: "jsstring \<Rightarrow> jsstring"
  toUpperCase :: "jsstring \<Rightarrow> jsstring"
  localeCompare :: "jsstring \<Rightarrow> jsstring \<Rightarrow> int"

definition asciiLower :: "jsstring \<Rightarrow> jsstring" where
  "asciiLower s = map (\<lambda>c. if 65 \<le> c \<and> c \<le> 90 then c + 32 else c) s"

definition asciiUpper :: "jsstring \<Rightarrow> jsstring" where
  "asciiUpper s = map (\<lambda>c. if 97 \<le> c \<and> c \<le> 122 then c - 32 else c) s"

fun unitCompare :: "jsstring \<Rightarrow> jsstring \<Rightarrow> int" where
  "unitCompare [] [] = 0"
| "unitCompare [] (y # ys) = - 1"
| "unitCompare (x # xs) [] = 1"
| "unitCompare (x # xs) (y # ys) =
     (if x < y then - 1 else if y < x then 1 else unitCompare xs ys)"

definition asciiEnv :: jsenv where
  "asciiEnv = \<lparr>toLowerCase = asciiLower, toUpperCase = asciiUpper,
     localeCompare = unitCompare\<rparr>"

subsection \<open>String methods\<close>

definition startsWith :: "jsstring \<Rightarrow> jsstring \<Rightarrow> bool" where
  "startsWith s k \<longleftrightarrow> take (length k) s = k"

text \<open>\<open>s.includes(k)\<close>\<close>

fun includesStr :: "jsstring \<Rightarrow> jsstring \<Rightarrow> bool" where
  "includesStr [] k = (k = [])"
| "includesStr (c # cs) k = (startsWith (c # cs) k \<or> includesStr cs k)"

text \<open>
  \<open>s.split(sep)\<close> with a string separator: the pieces between the occurrences of
  \<open>sep\<close>, found from left to right without overlap; \<open>cur\<close> is the piece being read.
\<close>

function splitAcc :: "jsstring \<Rightarrow> jsstring \<Rightarrow> jsstring \<Rightarrow> jsstring list" where
  "splitAcc sep cur s =
     (if s = [] then [cur]
      else if sep \<noteq> [] \<and> startsWith s sep
           then cur # splitAcc sep [] (drop (length sep) s)
           else splitAcc sep (cur @ [hd s]) (tl s))"
  by pat_completeness auto
termination
  by (relation "measure (\<lambda>(sep, cur, s). length s)") auto

declare splitAcc.simps [simp del]

definition splitStr :: "jsstring \<Rightarrow> jsstring \<Rightarrow> jsstring list" where
  "splitStr sep s = (if sep = [] then map (\<lambda>c. [c]) s else splitAcc sep [] s)"

text \<open>\<open>xs.join(sep)\<close>\<close>

fun join :: "jsstring \<Rightarrow> jsstring list \<Rightarrow> jsstring" where
  "join sep [] = []"
| "join sep [x] = x"
| "join sep (x # y # ys) = x @ sep @ join sep (y # ys)"

text \<open>\<open>set.add(x)\<close> on a \<open>Set\<close>, which keeps insertion order.\<close>

definition setAdd :: "'a \<Rightarrow> 'a list \<Rightarrow> 'a list" where
  "setAdd x xs = (if x \<in> set xs then xs else xs @ [x])"

section \<open>Text Normalizer (src/utils/text.ts)\<close>

text \<open>
  General category Cc is U+0000..U+001F and U+007F..U+009F. General category Cf is the
  table of the Unicode Character Database.
\<close>

definition isCc :: "nat \<Rightarrow> bool" where
  "isCc c \<longleftrightarrow> c \<le> 31 \<or> (127 \<le> c \<and> c \<le> 159)"

definition isCf :: "nat \<Rightarrow> bool" where
  "isCf c \<longleftrightarrow>
     c = 173 \<or> (1536 \<le> c \<and> c \<le> 1541) \<or> c = 1564 \<or> c = 1757 \<or> c = 1807
     \<or> (2192 \<le> c \<and> c \<le> 2193) \<or> c = 2274 \<or> c = 6158
     \<or> (8203 \<le> c \<and> c \<le> 8207) \<or> (8234 \<le> c \<and> c \<le> 8238)
     \<or> (8288 \<le> c \<and> c \<le> 8292) \<or> (8294 \<le> c \<and> c \<le> 8303)
     \<or> c = 65279 \<or> (65529 \<le> c \<and> c \<le> 65531)
     \<or> c = 69821 \<or> c = 69837 \<or> (78896 \<le> c \<and> c \<le> 78911)
     \<or> (113824 \<le> c \<and> c \<le> 113827) \<or> (119155 \<le> c \<and> c \<le> 119162)
     \<or> c = 917505 \<or> (917536 \<le> c \<and> c \<le> 917631)"

definition isHighSurrogate :: "nat \<Rightarrow> bool" where
  "isHighSurrogate c \<longleftrightarrow> 55296 \<le> c \<and> c \<le> 56319"

definition isLowSurrogate :: "nat \<Rightarrow> bool" where
  "isLowSurrogate c \<longleftrightarrow> 56320 \<le> c \<and> c \<le> 57343"

definition codePoint :: "nat \<Rightarrow> nat \<Rightarrow> nat" where
  "codePoint h l = (h - 55296) * 1024 + (l - 56320) + 65536"

text \<open>
  \<open>input.replace(/[\p{Cc}\p{Cf}]/gu, '')\<close>: with the \<open>u\<close> flag the pattern reads
  code points, a surrogate pair as one.
\<close>

fun replaceCcCf :: "jsstring \<Rightarrow> jsstring" where
  "replaceCcCf [] = []"
| "replaceCcCf [c] = (if isCc c \<or> isCf c then [] else [c])"
| "replaceCcCf (h # l # cs) =
     (if isHighSurrogate h \<and> isLowSurrogate l
      then (if isCc (codePoint h l) \<or> isCf (codePoint h l)
            then replaceCcCf cs else h # l # replaceCcCf cs)
      else (if isCc h \<or> isCf h then replaceCcCf (l # cs) else h # replaceCcCf (l # cs)))"

fun cleanText :: "jsval \<Rightarrow> jsval" where
  "cleanText (JStr input) = JStr (replaceCcCf input)"
| "cleanText input = input"

section \<open>Vocabulary builder (handleAnalysis, pdfTokens)\<close>

text \<open>
  \<open>sourceText.split(/[\s,;|]+/)\<close>: the pieces between the maximal runs of separator
  characters; a run at the start or at the end leaves an empty piece there.
\<close>

definition isSeparator :: "nat \<Rightarrow> bool" where
  "isSeparator c \<longleftrightarrow> isWhiteSpace c \<or> c = 44 \<or> c = 59 \<or> c = 124"

fun splitSeparators :: "bool \<Rightarrow> jsstring \<Rightarrow> jsstring \<Rightarrow> jsstring list" where
  "splitSeparators inRun cur [] = [cur]"
| "splitSeparators inRun cur (c # cs) =
     (if isSeparator c
      then (if inRun then splitSeparators True cur cs
            else cur # splitSeparators True [] cs)
      else splitSeparators False (cur @ [c]) cs)"

text \<open>\<open>/[()[\]{}]/\<close>\<close>

definition isBracket :: "nat \<Rightarrow> bool" where
  "isBracket c \<longleftrightarrow> c = 40 \<or> c = 41 \<or> c = 91 \<or> c = 93 \<or> c = 123 \<or> c = 125"

definition addSubToken :: "jsstring list \<Rightarrow> jsstring \<Rightarrow> jsstring list" where
  "addSubToken tokens sub = (if length sub > 1 then setAdd sub tokens else tokens)"

definition addWord :: "jsenv \<Rightarrow> jsstring list \<Rightarrow> jsstring \<Rightarrow> jsstring list" where
  "addWord env tokens w =
     (let clean = toUpperCase env (filter (\<lambda>c. \<not> isBracket c) (trim w))
      in if length clean > 1
         then (let tokens1 = setAdd clean tokens
               in if includesStr clean [45]
                  then foldl addSubToken tokens1 (splitStr [45] clean)
                  else tokens1)
         else tokens)"

definition pdfTokens :: "jsenv \<Rightarrow> jsstring \<Rightarrow> jsstring list" where
  "pdfTokens env sourceText = foldl (addWord env) [] (splitSeparators False [] sourceText)"

section \<open>Sheets and verdicts (handleAnalysis)\<close>

text \<open>
  \<open>handleAnalysis\<close> returns at once when the source text or the sheet is missing;
  otherwise it builds the vocabulary and runs the selected checks, each on the text and
  the rows alone. The checks modelled here are its blocks 1, 2, 4 and 5.

  A row of the parsed sheet is an object: its properties in the order of
  \<open>Object.keys\<close>. \<open>row[h]\<close> of a missing property is \<open>undefined\<close>.
\<close>

type_synonym row = "(jsstring \<times> jsval) list"

definition getProp :: "row \<Rightarrow> jsstring \<Rightarrow> jsval" where
  "getProp r h = (case map_of r h of None \<Rightarrow> JUndefined | Some v \<Rightarrow> v)"

text \<open>\<open>Object.keys(excelData[0] || {})\<close>\<close>

definition headersOf :: "row list \<Rightarrow> jsstring list" where
  "headersOf excelData = (case excelData of [] \<Rightarrow> [] | r # rs \<Rightarrow> map fst r)"

datatype status = Valid | Invalid | NeedsReview

record validationResultItem =
  originalRecord :: row
  status :: status
  reasoning :: jsstring
  invalidValue :: "jsstring option"

definition idHeaderNames :: "jsstring list" where
  "idHeaderNames = [str ''file name'', str ''filename'', str ''model name'']"

definition createRowRecord :: "jsenv \<Rightarrow> jsstring list \<Rightarrow> row \<Rightarrow> jsstring \<Rightarrow> row" where
  "createRowRecord env headers r header =
     (let idH = find (\<lambda>h. toLowerCase env h \<in> set idHeaderNames) headers
      in AList.update header (getProp r header)
           (case idH of None \<Rightarrow> []
            | Some i \<Rightarrow> if i = [] then [] else [(i, getProp r i)]))"

subsection \<open>1. File Name\<close>

text \<open>
  \<open>originalVal.replace(/\.[^/.]+$/, "")\<close>: the leftmost dot that is followed, up to the
  end of the string, by one or more characters other than \<open>/\<close> and \<open>.\<close> is removed
  with what follows it.
\<close>

fun replaceExtension :: "jsstring \<Rightarrow> jsstring" where
  "replaceExtension [] = []"
| "replaceExtension (c # cs) =
     (if c = 46 \<and> cs \<noteq> [] \<and> list_all (\<lambda>d. d \<noteq> 47 \<and> d \<noteq> 46) cs then []
      else c # replaceExtension cs)"

text \<open>\<open>/^\d{6}$/.test(s)\<close>\<close>

definition isSixDigits :: "jsstring \<Rightarrow> bool" where
  "isSixDigits s \<longleftrightarrow> length s = 6 \<and> list_all (\<lambda>c. 48 \<le> c \<and> c \<le> 57) s"

definition fileNameSegments :: "jsstring \<Rightarrow> jsstring list" where
  "fileNameSegments valWithoutExt =
     (if includesStr valWithoutExt [45] then splitStr [45] valWithoutExt
      else if includesStr valWithoutExt [95] then splitStr [95] valWithoutExt
      else [valWithoutExt])"

text \<open>\<open>segments[segments.length - 1]\<close>, as the template and the pattern read it.\<close>

definition lastSegment :: "jsstring list \<Rightarrow> jsstring" where
  "lastSegment segments = (if segments = [] then str ''undefined'' else last segments)"

text \<open>The callback of \<open>excelData.reduce\<close>; \<open>acc.push\<close> appends.\<close>

definition fileNameRow ::
  "jsenv \<Rightarrow> jsstring list \<Rightarrow> jsstring list \<Rightarrow> jsstring
     \<Rightarrow> validationResultItem list \<Rightarrow> row \<Rightarrow> validationResultItem list" where
  "fileNameRow env tokens headers h acc r =
     (let originalVal = trim (toStr (orElse (getProp r h) (JStr [])))
      in if originalVal = [] then acc
         else
           (let valWithoutExt = replaceExtension originalVal;
                segments = fileNameSegments valWithoutExt;
                lastSeg = lastSegment segments;
                is6 = isSixDigits lastSeg;
                invalidSegs = filter (\<lambda>s. toUpperCase env s \<notin> set tokens) (butlast segments);
                errors =
                  (if \<not> is6
                   then [str ''The sequence segment '' @ [39] @ lastSeg @ [39]
                           @ str '' must be exactly 6 digits.'']
                   else [])
                  @ (if length invalidSegs > 0
                     then [str ''Segments ['' @ join (str '', '') invalidSegs
                             @ str ''] are wrong (not found in project rules).'']
                     else []);
                ok = (length errors = 0);
                reason = (if ok then str ''Valid: Matches all project naming rules.''
                          else str ''Invalid: '' @ join (str '' '') errors)
            in acc @ [\<lparr>originalRecord = createRowRecord env headers r h,
                       status = (if ok then Valid else Invalid),
                       reasoning = reason,
                       invalidValue = (if \<not> ok then Some originalVal else None)\<rparr>]))"

text \<open>
  The block of the check: \<open>None\<close> when the check is not selected or no header is found
  (\<open>newResults.fileName\<close> is then not assigned).
\<close>

definition fileNameCheck ::
  "jsenv \<Rightarrow> bool \<Rightarrow> jsstring list \<Rightarrow> row list \<Rightarrow> validationResultItem list option" where
  "fileNameCheck env selected tokens excelData =
     (if \<not> selected then None
      else case find (\<lambda>h. trim (toLowerCase env h) \<in> set idHeaderNames) (headersOf excelData) of
             None \<Rightarrow> None
           | Some h \<Rightarrow>
               if h = [] then None
               else Some (foldl (fileNameRow env tokens (headersOf excelData) h) [] excelData))"

subsection \<open>2. Units\<close>

text \<open>
  \<open>keys.reduce((acc, k) => acc + (sourceText.toLowerCase().split(k).length - 1), 0)\<close>
\<close>

definition keywordScore :: "jsenv \<Rightarrow> jsstring \<Rightarrow> jsstring list \<Rightarrow> nat" where
  "keywordScore env sourceText keys =
     foldl (\<lambda>acc k. acc + (length (splitStr k (toLowerCase env sourceText)) - 1)) 0 keys"

definition metricScore :: "jsenv \<Rightarrow> jsstring \<Rightarrow> nat" where
  "metricScore env sourceText =
     keywordScore env sourceText [str ''metric'', str ''millimeter'', str ''meter'']"

definition imperialScore :: "jsenv \<Rightarrow> jsstring \<Rightarrow> nat" where
  "imperialScore env sourceText =
     keywordScore env sourceText [str ''imperial'', str ''inch'', str ''feet'']"

definition projectUnitStandard :: "jsenv \<Rightarrow> jsstring \<Rightarrow> jsstring" where
  "projectUnitStandard env sourceText =
     (if metricScore env sourceText \<ge> imperialScore env sourceText
      then str ''Metric'' else str ''Imperial'')"

definition unitsRow ::
  "jsenv \<Rightarrow> jsstring \<Rightarrow> jsstring list \<Rightarrow> jsstring
     \<Rightarrow> validationResultItem list \<Rightarrow> row \<Rightarrow> validationResultItem list" where
  "unitsRow env standard headers h acc r =
     (let val = trim (toStr (orElse (getProp r h) (JStr [])))
      in if val = [] then acc
         else
           (let ok = includesStr (toLowerCase env val) (toLowerCase env standard)
            in acc @ [\<lparr>originalRecord = createRowRecord env headers r h,
                       status = (if ok then Valid else Invalid),
                       reasoning =
                         (if ok
                          then str ''Valid: Matches the document'' @ [39] @ str ''s '' @ standard
                                 @ str '' standard.''
                          else str ''Item is wrong: Expected '' @ standard @ str '' but found ''
                                 @ [39] @ val @ [39] @ str ''.''),
                       invalidValue = None\<rparr>]))"

record projectUnitsSummary =
  standardFromDocument :: jsstring
  metricCount :: nat
  imperialCount :: nat
  otherCount :: nat
  totalCount :: nat
  summaryReasoning :: jsstring

record projectUnitsCheckResult =
  summary :: projectUnitsSummary
  details :: "validationResultItem list"

definition projectUnitsCheck ::
  "jsenv \<Rightarrow> bool \<Rightarrow> jsstring \<Rightarrow> row list \<Rightarrow> projectUnitsCheckResult option" where
  "projectUnitsCheck env selected sourceText excelData =
     (if \<not> selected then None
      else case find (\<lambda>h. trim (toLowerCase env h) = str ''project units'') (headersOf excelData) of
             None \<Rightarrow> None
           | Some h \<Rightarrow>
               if h = [] then None
               else
                 (let standard = projectUnitStandard env sourceText;
                      ds = foldl (unitsRow env standard (headersOf excelData) h) [] excelData
                  in Some \<lparr>summary = \<lparr>standardFromDocument = standard, metricCount = 0,
                                imperialCount = 0, otherCount = 0, totalCount = length ds,
                                summaryReasoning = []\<rparr>,
                            details = ds\<rparr>))"

text \<open>
  Following the words of the specification ("counting occurrences" of a word in the
  text): the number of occurrences of \<open>k\<close> in \<open>s\<close>, read from left to right without
  overlap. The source computes it as \<open>split(k).length - 1\<close>.
\<close>

function countOccurrences :: "jsstring \<Rightarrow> jsstring \<Rightarrow> nat" where
  "countOccurrences k s =
     (if s = [] \<or> k = [] then 0
      else if startsWith s k then 1 + countOccurrences k (drop (length k) s)
      else countOccurrences k (tl s))"
  by pat_completeness auto
termination
  by (relation "measure (\<lambda>(k, s). length s)") auto

declare countOccurrences.simps [simp del]

subsection \<open>4. RVT Link and 5. Navisworks\<close>

text \<open>\<open>excelData.filter(r => String(r[h] ?? '').trim() !== '')\<close>\<close>

definition nonBlankRows :: "jsstring \<Rightarrow> row list \<Rightarrow> row list" where
  "nonBlankRows h excelData =
     filter (\<lambda>r. trim (toStr (coalesce (getProp r h) (JStr []))) \<noteq> []) excelData"

definition rvtLinkRow :: "jsenv \<Rightarrow> jsstring list \<Rightarrow> jsstring \<Rightarrow> row \<Rightarrow> validationResultItem" where
  "rvtLinkRow env headers h r =
     (let isPinned = (toLowerCase env (toStr (getProp r h)) = str ''true'')
      in \<lparr>originalRecord = createRowRecord env headers r h,
          status = (if isPinned then Valid else Invalid),
          reasoning =
            (if isPinned then str ''Valid: The linked model is correctly pinned.''
             else str ''Item is wrong: Linked models must be pinned to prevent accidental movement.''),
          invalidValue = None\<rparr>)"

definition rvtLinkPinnedCheck ::
  "jsenv \<Rightarrow> bool \<Rightarrow> row list \<Rightarrow> validationResultItem list option" where
  "rvtLinkPinnedCheck env selected excelData =
     (if \<not> selected then None
      else case find (\<lambda>h. trim (toLowerCase env h) = str ''rvt link is pinned'') (headersOf excelData) of
             None \<Rightarrow> None
           | Some h \<Rightarrow>
               if h = [] then None
               else
                 (let rows = nonBlankRows h excelData
                  in if length rows = 0
                     then Some [\<lparr>originalRecord = [(str ''Check'', JStr (str ''RVT Link''))],
                                 status = Valid,
                                 reasoning = str ''Valid: There is no link in the Model.'',
                                 invalidValue = None\<rparr>]
                     else Some (map (rvtLinkRow env (headersOf excelData) h) rows)))"

definition navisworksRow :: "jsenv \<Rightarrow> jsstring list \<Rightarrow> jsstring \<Rightarrow> row \<Rightarrow> validationResultItem" where
  "navisworksRow env headers h r =
     (let hasKeyword = includesStr (toLowerCase env (toStr (getProp r h))) (str ''navisworks'')
      in \<lparr>originalRecord = createRowRecord env headers r h,
          status = (if hasKeyword then Valid else Invalid),
          reasoning =
            (if hasKeyword then str ''Valid: View name includes the mandatory keyword.''
             else str ''Item is wrong: View name must include '' @ [39] @ str ''Navisworks''
                    @ [39] @ str '' keyword.''),
          invalidValue = None\<rparr>)"

definition navisworksViewNameCheck ::
  "jsenv \<Rightarrow> bool \<Rightarrow> row list \<Rightarrow> validationResultItem list option" where
  "navisworksViewNameCheck env selected excelData =
     (if \<not> selected then None
      else case find (\<lambda>h. trim (toLowerCase env h) = str ''navisworks view name'') (headersOf excelData) of
             None \<Rightarrow> None
           | Some h \<Rightarrow>
               if h = [] then None
               else
                 (let rows = nonBlankRows h excelData
                  in if length rows = 0
                     then Some [\<lparr>originalRecord = [(str ''Check'', JStr (str ''Navisworks View''))],
                                 status = Invalid,
                                 reasoning = str ''Item not found: No Navisworks view found in the Model.'',
                                 invalidValue = None\<rparr>]
                     else Some (map (navisworksRow env (headersOf excelData) h) rows)))"

section \<open>Dataset Reconciler (src/pages/MIDPCheckPage.tsx)\<close>

subsection \<open>Ingestion of a sheet (handleFileChange, columnData)\<close>

text \<open>
  \<open>FileDataMap\<close> is a \<open>Map\<close> from the lower-cased base name to an item that holds
  a \<open>Map\<close> from format to count and a \<open>Set\<close> of milestones. A \<open>Map\<close> iterates in
  the order of first insertion and \<open>set\<close> on a present key keeps its place: an
  association list under \<open>AList.update\<close>.
\<close>

record fileDataItem =
  originalCase :: jsstring
  formatCounts :: "(jsstring \<times> nat) list"
  milestones :: "jsstring list"

type_synonym fileDataMap = "(jsstring \<times> fileDataItem) list"

text \<open>The result of an upload; the text preview \<open>rawText\<close> is left out.\<close>

record fileUploadResult =
  data :: fileDataMap
  totalRows :: nat

definition falseValues :: "jsstring list" where
  "falseValues = [str ''no'', str ''false'', str ''n/a'', str ''-'', str ''0'', str ''nan'', []]"

text \<open>
  \<open>actualMilestoneHeaders.forEach((header, key) => ...)\<close> over the milestone columns
  found in the sheet, as pairs of milestone and header.
\<close>

definition addRowMilestone ::
  "jsenv \<Rightarrow> row \<Rightarrow> jsstring list \<Rightarrow> jsstring \<times> jsstring \<Rightarrow> jsstring list" where
  "addRowMilestone env r rowMilestones kh =
     (let val = getProp r (snd kh);
          s = toLowerCase env
                (trim (toStr (if val = JUndefined \<or> val = JNull then JStr [] else val)))
      in if s \<notin> set falseValues then setAdd (fst kh) rowMilestones else rowMilestones)"

text \<open>\<open>String(row[actualFormatHeader] || '').trim().replace(/^\./, '').toLowerCase()\<close>\<close>

definition rowExtension :: "jsenv \<Rightarrow> jsstring \<Rightarrow> row \<Rightarrow> jsstring" where
  "rowExtension env actualFormatHeader r =
     (let t = trim (toStr (orElse (getProp r actualFormatHeader) (JStr [])))
      in toLowerCase env (case t of [] \<Rightarrow> [] | c # cs \<Rightarrow> if c = 46 then cs else c # cs))"

text \<open>\<open>String(row[actualNameHeader]).trim()\<close>\<close>

definition rowBaseName :: "jsstring \<Rightarrow> row \<Rightarrow> jsstring" where
  "rowBaseName actualNameHeader r = trim (toStr (getProp r actualNameHeader))"

text \<open>
  The callback of \<open>cleanedJson.forEach\<close>, on the state it mutates: \<open>columnData\<close> and
  \<open>totalRows\<close>. The entry read back with \<open>columnData.get(lowerCaseBaseName)!\<close> is the
  one set just before.
\<close>

definition ingestRow ::
  "jsenv \<Rightarrow> jsstring \<Rightarrow> jsstring \<Rightarrow> (jsstring \<times> jsstring) list
     \<Rightarrow> fileUploadResult \<Rightarrow> row \<Rightarrow> fileUploadResult" where
  "ingestRow env actualNameHeader actualFormatHeader actualMilestoneHeaders st r =
     (let originalBaseName = rowBaseName actualNameHeader r
      in if originalBaseName = [] then st
         else
           (let extension = rowExtension env actualFormatHeader r;
                lowerCaseBaseName = toLowerCase env originalBaseName;
                rowMilestones = foldl (addRowMilestone env r) [] actualMilestoneHeaders;
                columnData1 =
                  (case map_of (data st) lowerCaseBaseName of
                     None \<Rightarrow>
                       AList.update lowerCaseBaseName
                         \<lparr>originalCase = originalBaseName, formatCounts = [],
                          milestones = rowMilestones\<rparr> (data st)
                   | Some item \<Rightarrow>
                       AList.update lowerCaseBaseName
                         (item\<lparr>milestones := foldl (\<lambda>ms m. setAdd m ms) (milestones item) rowMilestones\<rparr>)
                         (data st));
                columnData2 =
                  (if extension \<noteq> []
                   then (case map_of columnData1 lowerCaseBaseName of
                           None \<Rightarrow> columnData1
                         | Some item \<Rightarrow>
                             (let currentCount =
                                    (case map_of (formatCounts item) extension of
                                       None \<Rightarrow> 0 | Some c \<Rightarrow> c)
                              in AList.update lowerCaseBaseName
                                   (item\<lparr>formatCounts :=
                                      AList.update extension (currentCount + 1) (formatCounts item)\<rparr>)
                                   columnData1))
                   else columnData1)
            in \<lparr>data = columnData2, totalRows = totalRows st + 1\<rparr>))"

definition ingest ::
  "jsenv \<Rightarrow> jsstring \<Rightarrow> jsstring \<Rightarrow> (jsstring \<times> jsstring) list \<Rightarrow> row list
     \<Rightarrow> fileUploadResult" where
  "ingest env actualNameHeader actualFormatHeader actualMilestoneHeaders cleanedJson =
     foldl (ingestRow env actualNameHeader actualFormatHeader actualMilestoneHeaders)
       \<lparr>data = [], totalRows = 0\<rparr> cleanedJson"

subsection \<open>Comparison (handleCompare)\<close>

datatype comparisonStatus = matched | missing_in_acc | extra_in_acc | count_mismatch

text \<open>
  \<open>MIDPComparisonResultItem\<close>; its fields \<open>status\<close> and \<open>milestones\<close> are named
  \<open>itemStatus\<close> and \<open>itemMilestones\<close> here.
\<close>

record comparisonResultItem =
  baseName :: jsstring
  format :: jsstring
  itemStatus :: comparisonStatus
  midpCount :: nat
  accCount :: nat
  itemMilestones :: "jsstring list"

text \<open>\<open>item?.formatCounts.get(format) || 0\<close>\<close>

definition countFor :: "fileDataItem option \<Rightarrow> jsstring \<Rightarrow> nat" where
  "countFor item fmt =
     (case item of None \<Rightarrow> 0
      | Some i \<Rightarrow> (case map_of (formatCounts i) fmt of None \<Rightarrow> 0 | Some c \<Rightarrow> c))"

definition compareStatus :: "nat \<Rightarrow> nat \<Rightarrow> comparisonStatus" where
  "compareStatus midp acc =
     (if midp > 0 \<and> acc = 0 then missing_in_acc
      else if midp = 0 \<and> acc > 0 then extra_in_acc
      else if midp \<noteq> acc then count_mismatch
      else matched)"

text \<open>\<open>new Set(xs)\<close>\<close>

definition newSet :: "'a list \<Rightarrow> 'a list" where
  "newSet xs = foldl (\<lambda>s x. setAdd x s) [] xs"

text \<open>\<open>midpItem?.originalCase || accItem?.originalCase || lowerBaseName\<close>\<close>

definition originalNameOf ::
  "fileDataItem option \<Rightarrow> fileDataItem option \<Rightarrow> jsstring \<Rightarrow> jsstring" where
  "originalNameOf midpItem accItem lowerBaseName =
     (let fromAcc = (case accItem of None \<Rightarrow> lowerBaseName
                     | Some a \<Rightarrow> if originalCase a \<noteq> [] then originalCase a else lowerBaseName)
      in case midpItem of None \<Rightarrow> fromAcc
         | Some m \<Rightarrow> if originalCase m \<noteq> [] then originalCase m else fromAcc)"

definition itemKeys :: "fileDataItem option \<Rightarrow> jsstring list" where
  "itemKeys item = (case item of None \<Rightarrow> [] | Some i \<Rightarrow> map fst (formatCounts i))"

definition itemTags :: "fileDataItem option \<Rightarrow> jsstring list" where
  "itemTags item = (case item of None \<Rightarrow> [] | Some i \<Rightarrow> milestones i)"

text \<open>The record pushed for one base name and one format.\<close>

definition comparisonItem ::
  "jsenv \<Rightarrow> fileDataMap \<Rightarrow> fileDataMap \<Rightarrow> jsstring \<Rightarrow> jsstring \<Rightarrow> comparisonResultItem" where
  "comparisonItem env midpMap accMap lowerBaseName fmt =
     (let midpItem = map_of midpMap lowerBaseName;
          accItem = map_of accMap lowerBaseName;
          originalName = originalNameOf midpItem accItem lowerBaseName;
          combinedMilestones = newSet (itemTags midpItem @ itemTags accItem);
          midp = countFor midpItem fmt;
          acc = countFor accItem fmt
      in \<lparr>baseName = originalName, format = toUpperCase env fmt,
          itemStatus = compareStatus midp acc, midpCount = midp, accCount = acc,
          itemMilestones = combinedMilestones\<rparr>)"

text \<open>The body of the loop over \<open>allBaseNames\<close>: one record per format of the base name.\<close>

definition compareBaseName ::
  "jsenv \<Rightarrow> fileDataMap \<Rightarrow> fileDataMap \<Rightarrow> jsstring \<Rightarrow> comparisonResultItem list" where
  "compareBaseName env midpMap accMap lowerBaseName =
     (let allFormatsForThisBase =
            newSet (itemKeys (map_of midpMap lowerBaseName) @ itemKeys (map_of accMap lowerBaseName))
      in map (comparisonItem env midpMap accMap lowerBaseName) allFormatsForThisBase)"

text \<open>
  \<open>results.sort((a, b) => a.baseName.localeCompare(b.baseName) ||
  a.format.localeCompare(b.format))\<close>; the sort of an array is stable.
\<close>

definition resultOrder :: "jsenv \<Rightarrow> comparisonResultItem \<Rightarrow> comparisonResultItem \<Rightarrow> int" where
  "resultOrder env a b =
     (let c = localeCompare env (baseName a) (baseName b)
      in if c \<noteq> 0 then c else localeCompare env (format a) (format b))"

fun insertBy :: "('a \<Rightarrow> 'a \<Rightarrow> int) \<Rightarrow> 'a \<Rightarrow> 'a list \<Rightarrow> 'a list" where
  "insertBy cmp x [] = [x]"
| "insertBy cmp x (y # ys) = (if cmp x y \<le> 0 then x # y # ys else y # insertBy cmp x ys)"

definition sortBy :: "('a \<Rightarrow> 'a \<Rightarrow> int) \<Rightarrow> 'a list \<Rightarrow> 'a list" where
  "sortBy cmp xs = foldr (insertBy cmp) xs []"

definition comparisonResults ::
  "jsenv \<Rightarrow> fileDataMap \<Rightarrow> fileDataMap \<Rightarrow> comparisonResultItem list" where
  "comparisonResults env midpMap accMap =
     (let allBaseNames = newSet (map fst midpMap @ map fst accMap)
      in sortBy (resultOrder env) (concat (map (compareBaseName env midpMap accMap) allBaseNames)))"

text \<open>
  The (base name, format) pairs in the order in which the two nested loops visit them.
\<close>

definition comparedPairs :: "fileDataMap \<Rightarrow> fileDataMap \<Rightarrow> (jsstring \<times> jsstring) list" where
  "comparedPairs midpMap accMap =
     concat (map (\<lambda>k. map (Pair k) (newSet (itemKeys (map_of midpMap k) @ itemKeys (map_of accMap k))))
               (newSet (map fst midpMap @ map fst accMap)))"

text \<open>\<open>if (!midpData?.data || !accData?.data) return;\<close>\<close>

definition handleCompare ::
  "jsenv \<Rightarrow> fileUploadResult option \<Rightarrow> fileUploadResult option
     \<Rightarrow> comparisonResultItem list option" where
  "handleCompare env midpData accData =
     (case midpData of None \<Rightarrow> None
      | Some m \<Rightarrow>
          (case accData of None \<Rightarrow> None
           | Some a \<Rightarrow> Some (comparisonResults env (data m) (data a))))"


definition formatPairs :: "fileDataMap \<Rightarrow> (jsstring \<times> jsstring) set" where
  "formatPairs m = {(k, f). \<exists>item. map_of m k = Some item \<and> f \<in> fst ` set (formatCounts item)}"

section \<open>Parameter compliance (handleAnalyze)\<close>

text \<open>
  The two \<open>throw\<close> statements of \<open>handleAnalyze\<close> that precede the compliance
  computation.
\<close>

datatype analyzeError = EmptyDataFile | MissingSourceFileColumn

text \<open>
  A JavaScript number is a binary64 floating-point value, and \<open>/\<close> and \<open>*\<close> return
  the binary64 value nearest to the exact result, a tie going to the even significand.
  A finite number that is not negative is kept as a fraction: numerator and denominator.

  \<open>roundToDouble a b\<close> is the binary64 value of the fraction \<open>a / b\<close>, for \<open>b > 0\<close>:
  the fraction is scaled by a power of two so that its integer part \<open>q\<close> has 53 bits,
  \<open>q\<close> is rounded to the nearest integer by the remainder, and the scaling is undone.
  Overflow and subnormal values are not modelled: the score divides and multiplies
  array lengths, which are below \<open>2^32\<close>. The only division of the program,
  \<open>matched.length / totalExpected\<close>, is guarded by \<open>totalExpected > 0\<close>.
\<close>

fun bitLength :: "nat \<Rightarrow> nat" where
  "bitLength n = (if n = 0 then 0 else Suc (bitLength (n div 2)))"

declare bitLength.simps [simp del]

definition roundToDouble :: "nat \<Rightarrow> nat \<Rightarrow> nat \<times> nat" where
  "roundToDouble a b =
     (if a = 0 then (0, 1)
      else
        (let num = a * 2 ^ (53 + bitLength b);
             den0 = b * 2 ^ bitLength a;
             wide = (num div den0 < 2 ^ 53);
             den = (if wide then den0 else 2 * den0);
             sh = (if wide then bitLength a else bitLength a + 1);
             q = num div den;
             r = num mod den;
             q' = (if 2 * r > den \<or> (2 * r = den \<and> odd q) then q + 1 else q)
         in (q' * 2 ^ sh, 2 ^ (53 + bitLength b))))"

text \<open>\<open>m / n\<close> on two array lengths and \<open>x * c\<close> on a number and an integer constant.\<close>

definition doubleDivide :: "nat \<Rightarrow> nat \<Rightarrow> nat \<times> nat" where
  "doubleDivide m n = roundToDouble m n"

definition doubleTimes :: "nat \<times> nat \<Rightarrow> nat \<Rightarrow> nat \<times> nat" where
  "doubleTimes x c = roundToDouble (fst x * c) (snd x)"

definition doubleValue :: "nat \<times> nat \<Rightarrow> real" where
  "doubleValue x = real (fst x) / real (snd x)"

text \<open>
  \<open>ComplianceResult\<close>; its fields \<open>matched\<close>, \<open>missing\<close> and \<open>extra\<close> are named
  \<open>matchedParams\<close>, \<open>missingParams\<close> and \<open>extraParams\<close> here. The score is a
  JavaScript number, given by its value.
\<close>

record complianceResult =
  matchedParams :: "jsstring list"
  missingParams :: "jsstring list"
  extraParams :: "jsstring list"
  complianceScore :: real

definition excludedColumns :: "jsstring list" where
  "excludedColumns = [str ''category name'', str ''element id'', str ''source file'',
     str ''file name'']"

text \<open>
  The required parameters of a LOIN sheet with at least one row: the values of the
  column \<open>LOIN Parameter\<close> when it exists, the headers of the sheet otherwise.
\<close>

definition addParam :: "jsstring \<Rightarrow> jsstring list \<Rightarrow> row \<Rightarrow> jsstring list" where
  "addParam loinParamHeader paramSet r =
     (let val = trim (toStr (orElse (getProp r loinParamHeader) (JStr [])))
      in if val \<noteq> [] then setAdd val paramSet else paramSet)"

definition standardParamsOf :: "jsenv \<Rightarrow> row list \<Rightarrow> jsstring list" where
  "standardParamsOf env standardData =
     (let loinHeaders = headersOf standardData;
          loinParamHeader = find (\<lambda>h. toLowerCase env (trim h) = str ''loin parameter'') loinHeaders
      in case loinParamHeader of
           None \<Rightarrow> filter (\<lambda>h. toLowerCase env h \<notin> set excludedColumns) loinHeaders
         | Some h \<Rightarrow>
             if h = [] then filter (\<lambda>h. toLowerCase env h \<notin> set excludedColumns) loinHeaders
             else foldl (addParam h) [] standardData)"

definition compliance :: "jsenv \<Rightarrow> jsstring list \<Rightarrow> jsstring list \<Rightarrow> complianceResult" where
  "compliance env analyzableHeaders standardParams =
     (let dataHeaderSet = set (map trim analyzableHeaders);
          standardParamSet = set (map trim standardParams);
          matched = filter (\<lambda>stdP. trim stdP \<in> dataHeaderSet) standardParams;
          missing = filter (\<lambda>stdP. trim stdP \<notin> dataHeaderSet) standardParams;
          extra = filter (\<lambda>dataP. trim dataP \<notin> standardParamSet) analyzableHeaders;
          totalExpected = length standardParams;
          score = (if totalExpected > 0
                   then doubleValue (doubleTimes (doubleDivide (length matched) totalExpected) 100)
                   else (if length matched > 0 then 100 else 0))
      in \<lparr>matchedParams = sortBy (localeCompare env) matched,
          missingParams = sortBy (localeCompare env) missing,
          extraParams = sortBy (localeCompare env) extra,
          complianceScore = score\<rparr>)"

text \<open>
  \<open>handleAnalyze\<close> up to \<open>setComplianceResult\<close>: \<open>loinFile\<close> is the parsed LOIN
  sheet when one is uploaded. \<open>Inr None\<close>: no compliance result is set.
\<close>

definition handleAnalyze ::
  "jsenv \<Rightarrow> row list \<Rightarrow> row list option \<Rightarrow> analyzeError + complianceResult option" where
  "handleAnalyze env jsonData loinFile =
     (if length jsonData = 0 then Inl EmptyDataFile
      else
        (let allHeaders = headersOf jsonData;
             analyzableHeaders = filter (\<lambda>h. toLowerCase env h \<notin> set excludedColumns) allHeaders;
             sourceFileHeader =
               find (\<lambda>h. toLowerCase env h = str ''source file''
                          \<or> toLowerCase env h = str ''file name'') allHeaders
         in if sourceFileHeader = None \<or> sourceFileHeader = Some [] then Inl MissingSourceFileColumn
            else
              (case loinFile of
                 None \<Rightarrow> Inr None
               | Some standardData \<Rightarrow>
                   if length standardData > 0
                   then Inr (Some (compliance env analyzableHeaders (standardParamsOf env standardData)))
                   else Inr None)))"

section \<open>Evaluation rules\<close>

lemmas string_eval = str_def trim_def isWhiteSpace_def startsWith_def splitStr_def
  splitAcc.simps setAdd_def decNat.simps

lemmas env_eval = asciiEnv_def asciiLower_def asciiUpper_def

lemmas clean_eval = isCc_def isCf_def isHighSurrogate_def isLowSurrogate_def codePoint_def

lemmas token_eval = pdfTokens_def addWord_def addSubToken_def isSeparator_def isBracket_def

lemmas value_eval = getProp_def headersOf_def orElse_def coalesce_def Let_def

lemmas reconciler_eval = falseValues_def addRowMilestone_def rowExtension_def rowBaseName_def
  ingestRow_def ingest_def countFor_def compareStatus_def newSet_def originalNameOf_def
  itemKeys_def itemTags_def comparisonItem_def compareBaseName_def resultOrder_def sortBy_def
  comparisonResults_def handleCompare_def

lemmas number_eval = bitLength.simps roundToDouble_def doubleDivide_def doubleTimes_def
  doubleValue_def

lemmas compliance_eval = excludedColumns_def addParam_def standardParamsOf_def compliance_def
  handleAnalyze_def sortBy_def

lemmas checker_eval = idHeaderNames_def createRowRecord_def isSixDigits_def
  fileNameSegments_def lastSegment_def fileNameRow_def fileNameCheck_def keywordScore_def
  metricScore_def imperialScore_def projectUnitStandard_def unitsRow_def projectUnitsCheck_def
  nonBlankRows_def rvtLinkRow_def rvtLinkPinnedCheck_def navisworksRow_def
  navisworksViewNameCheck_def countOccurrences.simps

section \<open>Text Normalizer: properties\<close>

lemma cleanText_non_string: "(\<forall>s. x \<noteq> JStr s) \<Longrightarrow> cleanText x = x"
  by (cases x) auto

lemma space_not_removed:
  "\<not> isCc 32" "\<not> isCf 32" "\<not> isHighSurrogate 32" "\<not> isLowSurrogate 32"
  by (simp_all add: clean_eval)

lemma replaceCcCf_keeps:
  "c \<in> set s \<Longrightarrow> \<not> isCc c \<Longrightarrow> \<not> isCf c \<Longrightarrow> \<not> isHighSurrogate c
     \<Longrightarrow> \<not> isLowSurrogate c \<Longrightarrow> c \<in> set (replaceCcCf s)"
  by (induction s rule: replaceCcCf.induct) auto

text \<open>
  On a string without surrogates the pattern removes the code units of the two
  categories and nothing else.
\<close>

lemma replaceCcCf_filter:
  "(\<And>c. c \<in> set s \<Longrightarrow> \<not> isHighSurrogate c)
     \<Longrightarrow> replaceCcCf s = filter (\<lambda>c. \<not> (isCc c \<or> isCf c)) s"
  by (induction s rule: replaceCcCf.induct) auto

lemma replaceCcCf_keeps_space: "32 \<in> set s \<Longrightarrow> 32 \<in> set (replaceCcCf s)"
  by (rule replaceCcCf_keeps) (simp_all add: space_not_removed)

text \<open>
  C1. The claim says that \<open>cleanText\<close> removes the code points of the categories Cc
  and Cf and that a tab or a newline of the input is still present in the result, as
  the comment above the regular expression does. Tab (U+0009) and newline (U+000A) are
  of category Cc, so the pattern removes them: on the string of \<open>a\<close>, tab, \<open>b\<close>,
  newline, space, \<open>c\<close> the result has neither the tab nor the newline; the space is
  kept.
\<close>

theorem cleanText_removes_tab_newline:
  "cleanText (JStr (str ''a'' @ [9] @ str ''b'' @ [10] @ str '' c'')) = JStr (str ''ab c'')
   \<and> 9 \<notin> set (replaceCcCf (str ''a'' @ [9] @ str ''b'' @ [10] @ str '' c''))
   \<and> 10 \<notin> set (replaceCcCf (str ''a'' @ [9] @ str ''b'' @ [10] @ str '' c''))"
  by (simp add: string_eval clean_eval)

section \<open>Vocabulary builder: properties\<close>

text \<open>
  C3, as stated: the vocabulary built from \<open>ARCH-L01-001 Rev A\<close> contains the six tokens
  \<open>ARCH-L01-001\<close>, \<open>ARCH\<close>, \<open>L01\<close>, \<open>001\<close>, \<open>REV\<close> and \<open>A\<close>. It does not: a
  word enters the set only when \<open>clean.length > 1\<close>, and \<open>A\<close> has length 1.
\<close>

theorem pdfTokens_example_counterexample:
  "\<not> set [str ''ARCH-L01-001'', str ''ARCH'', str ''L01'', str ''001'', str ''REV'', str ''A'']
       \<subseteq> set (pdfTokens asciiEnv (str ''ARCH-L01-001 Rev A''))"
  by (simp add: string_eval env_eval token_eval)

text \<open>
  C3, amended: the vocabulary built from \<open>ARCH-L01-001 Rev A\<close> is exactly the five tokens
  \<open>ARCH-L01-001\<close>, \<open>ARCH\<close>, \<open>L01\<close>, \<open>001\<close> and \<open>REV\<close>, in this order of insertion;
  the one-character word \<open>A\<close> is dropped.
\<close>

theorem pdfTokens_example:
  "pdfTokens asciiEnv (str ''ARCH-L01-001 Rev A'')
     = [str ''ARCH-L01-001'', str ''ARCH'', str ''L01'', str ''001'', str ''REV'']"
  by (simp add: string_eval env_eval token_eval)

section \<open>Rule checkers: general lemmas\<close>

text \<open>A \<open>reduce\<close> whose callback only pushes is a concatenation of what each row pushes.\<close>

lemma foldl_push:
  assumes "\<And>acc r. f acc r = acc @ f [] r"
  shows "foldl f acc rows = acc @ concat (map (f []) rows)"
proof (induction rows arbitrary: acc)
  case Nil
  show ?case by simp
next
  case (Cons r rows)
  have "foldl f acc (r # rows) = foldl f (f acc r) rows" by simp
  also have "\<dots> = f acc r @ concat (map (f []) rows)" by (rule Cons.IH)
  also have "f acc r = acc @ f [] r" by (rule assms)
  finally show ?case by simp
qed

lemma concat_map_if:
  "concat (map (\<lambda>r. if P r then [v r] else []) rows) = map v (filter P rows)"
  by (induction rows) auto

lemma orElse_text:
  "trim (toStr (orElse v (JStr []))) \<noteq> [] \<longleftrightarrow> truthy v \<and> trim (toStr v) \<noteq> []"
  by (simp add: orElse_def trim_def)

lemma orElse_truthy: "truthy v \<Longrightarrow> orElse v d = v"
  by (simp add: orElse_def)

lemma splitAcc_not_Nil: "splitAcc sep cur s \<noteq> []"
  by (induction sep cur s rule: splitAcc.induct) (subst splitAcc.simps, simp)

lemma fileNameSegments_not_Nil: "fileNameSegments v \<noteq> []"
  by (simp add: fileNameSegments_def splitStr_def splitAcc_not_Nil)

lemma str_not_Nil: "str (c # cs) \<noteq> []"
  by (simp add: str_def)

subsection \<open>File Name\<close>

lemma fileNameRow_push:
  "fileNameRow env tokens headers h acc r = acc @ fileNameRow env tokens headers h [] r"
  by (simp add: fileNameRow_def Let_def)

lemma fileNameRow_single:
  "fileNameRow env tokens headers h [] r =
     (if truthy (getProp r h) \<and> trim (toStr (getProp r h)) \<noteq> []
      then [hd (fileNameRow env tokens headers h [] r)] else [])"
  using orElse_text[of "getProp r h"]
  by (auto simp add: fileNameRow_def Let_def)

lemma fileNameRow_status:
  assumes "truthy (getProp r h)" "trim (toStr (getProp r h)) \<noteq> []"
  shows "status (hd (fileNameRow env tokens headers h [] r)) =
     (if \<not> isSixDigits (last (fileNameSegments (replaceExtension (trim (toStr (getProp r h))))))
         \<or> (\<exists>s \<in> set (butlast (fileNameSegments (replaceExtension (trim (toStr (getProp r h)))))).
               toUpperCase env s \<notin> set tokens)
      then Invalid else Valid)"
  using assms orElse_text[of "getProp r h"]
  by (auto simp add: fileNameRow_def Let_def orElse_truthy lastSegment_def
        fileNameSegments_not_Nil filter_empty_conv)

lemma fileNameRow_record:
  assumes "truthy (getProp r h)" "trim (toStr (getProp r h)) \<noteq> []"
  shows "originalRecord (hd (fileNameRow env tokens headers h [] r))
           = createRowRecord env headers r h"
  using assms orElse_text[of "getProp r h"]
  by (simp add: fileNameRow_def Let_def orElse_truthy)

lemma fileNameRows_fold:
  "foldl (fileNameRow env tokens headers h) [] rows =
     map (\<lambda>r. hd (fileNameRow env tokens headers h [] r))
       (filter (\<lambda>r. truthy (getProp r h) \<and> trim (toStr (getProp r h)) \<noteq> []) rows)"
proof -
  have "foldl (fileNameRow env tokens headers h) [] rows =
          concat (map (fileNameRow env tokens headers h []) rows)"
    using foldl_push[of "fileNameRow env tokens headers h" "[]" rows, OF fileNameRow_push]
    by simp
  also have "map (fileNameRow env tokens headers h []) rows =
      map (\<lambda>r. if truthy (getProp r h) \<and> trim (toStr (getProp r h)) \<noteq> []
                then [hd (fileNameRow env tokens headers h [] r)] else []) rows"
    by (rule map_cong[OF refl]) (rule fileNameRow_single)
  finally show ?thesis by (simp only: concat_map_if)
qed

text \<open>
  C2, as stated: the filename checker returns exactly one record per row whose filename
  cell is non-empty after trimming. It does not: the cell is read as
  \<open>String(row[h] || '')\<close>, so a cell that holds the number 0, whose text \<open>0\<close> is not
  empty, is taken for an empty one and the row gets no record.
\<close>

theorem fileNameCheck_zero_cell_counterexample:
  "trim (toStr (getProp [(str ''File Name'', JNum 0)] (str ''File Name''))) = str ''0''
   \<and> fileNameCheck asciiEnv True (pdfTokens asciiEnv (str ''ARCH-L01-001 Rev A''))
         [[(str ''File Name'', JNum 0)]] = Some []"
  by (simp add: string_eval env_eval token_eval value_eval checker_eval split del: if_split)

text \<open>
  C2, amended: when the check is selected and the filename column \<open>h\<close> is located, then
  for every vocabulary and every row set the checker returns exactly one record per row
  whose filename cell is truthy (not \<open>0\<close>, \<open>false\<close>, \<open>null\<close>, \<open>undefined\<close> or the empty
  string) and non-empty after trimming, in the order of the rows; and the status of a row
  is \<open>Invalid\<close> if and only if, after stripping the extension and splitting the remaining
  name on \<open>-\<close> (else \<open>_\<close>), the last segment does not match \<open>^\d{6}$\<close> or some earlier
  segment's upper-case form is absent from the vocabulary; it is \<open>Valid\<close> otherwise.
\<close>

theorem fileNameCheck_verdicts:
  assumes "selected"
    and "find (\<lambda>h. trim (toLowerCase env h) \<in> set idHeaderNames) (headersOf excelData) = Some h"
    and "h \<noteq> []"
  shows "\<exists>res. fileNameCheck env selected tokens excelData = Some res \<and>
     (let rows = filter (\<lambda>r. truthy (getProp r h) \<and> trim (toStr (getProp r h)) \<noteq> []) excelData;
          segs = (\<lambda>r. fileNameSegments (replaceExtension (trim (toStr (getProp r h)))))
      in length res = length rows \<and>
         map originalRecord res = map (\<lambda>r. createRowRecord env (headersOf excelData) r h) rows \<and>
         map status res =
           map (\<lambda>r. if \<not> isSixDigits (last (segs r))
                        \<or> (\<exists>s \<in> set (butlast (segs r)). toUpperCase env s \<notin> set tokens)
                     then Invalid else Valid) rows)"
proof -
  let ?res = "foldl (fileNameRow env tokens (headersOf excelData) h) [] excelData"
  let ?P = "\<lambda>r. truthy (getProp r h) \<and> trim (toStr (getProp r h)) \<noteq> []"
  have run: "fileNameCheck env selected tokens excelData = Some ?res"
    using assms by (simp add: fileNameCheck_def)
  have eq: "?res = map (\<lambda>r. hd (fileNameRow env tokens (headersOf excelData) h [] r))
                     (filter ?P excelData)"
    by (rule fileNameRows_fold)
  have rec: "map originalRecord ?res =
      map (\<lambda>r. createRowRecord env (headersOf excelData) r h) (filter ?P excelData)"
    unfolding eq map_map by (rule map_cong) (simp_all add: fileNameRow_record)
  have st: "map status ?res =
      map (\<lambda>r. if \<not> isSixDigits (last (fileNameSegments (replaceExtension (trim (toStr (getProp r h))))))
                  \<or> (\<exists>s \<in> set (butlast (fileNameSegments (replaceExtension (trim (toStr (getProp r h)))))).
                        toUpperCase env s \<notin> set tokens)
               then Invalid else Valid) (filter ?P excelData)"
    unfolding eq map_map by (rule map_cong) (simp_all add: fileNameRow_status)
  have len: "length ?res = length (filter ?P excelData)"
    unfolding eq by simp
  show ?thesis
    using run rec st len by (simp add: Let_def)
qed

theorem fileNameCheck_verdicts_witness:
  "find (\<lambda>h. trim (toLowerCase asciiEnv h) \<in> set idHeaderNames)
     (headersOf [[(str ''File Name'', JStr (str ''ARCH-L01-000123.pdf''))],
          [(str ''File Name'', JStr (str ''XYZ-99.pdf''))],
          [(str ''File Name'', JStr (str ''  ''))]]) = Some (str ''File Name'')
   \<and> str ''File Name'' \<noteq> []
   \<and> map_option (map status)
        (fileNameCheck asciiEnv True [str ''ARCH'', str ''L01'']
          [[(str ''File Name'', JStr (str ''ARCH-L01-000123.pdf''))],
          [(str ''File Name'', JStr (str ''XYZ-99.pdf''))],
          [(str ''File Name'', JStr (str ''  ''))]]) = Some [Valid, Invalid]"
  using fileNameCheck_verdicts [of True asciiEnv
      "[[(str ''File Name'', JStr (str ''ARCH-L01-000123.pdf''))],
          [(str ''File Name'', JStr (str ''XYZ-99.pdf''))],
          [(str ''File Name'', JStr (str ''  ''))]]" "str ''File Name''"
      "[str ''ARCH'', str ''L01'']"]
  by (simp add: string_eval env_eval value_eval checker_eval split del: if_split)

subsection \<open>Units\<close>

lemma splitAcc_length:
  "k \<noteq> [] \<Longrightarrow> length (splitAcc k cur s) = Suc (countOccurrences k s)"
proof (induction k cur s rule: splitAcc.induct)
  case (1 sep cur s)
  show ?case
  proof (cases "s = []")
    case True
    then show ?thesis by (simp add: splitAcc.simps countOccurrences.simps)
  next
    case False
    show ?thesis
    proof (cases "startsWith s sep")
      case True
      with False 1 show ?thesis
        by (subst splitAcc.simps, subst countOccurrences.simps) simp
    next
      case st: False
      with False 1 show ?thesis
        by (subst splitAcc.simps, subst countOccurrences.simps) simp
    qed
  qed
qed

lemma split_occurrences:
  "k \<noteq> [] \<Longrightarrow> length (splitStr k s) - 1 = countOccurrences k s"
  by (simp add: splitStr_def splitAcc_length)










subsection \<open>RVT Link and Navisworks\<close>

lemma nonBlankRows_empty:
  "(\<forall>r \<in> set excelData. trim (toStr (coalesce (getProp r h) (JStr []))) = [])
     \<Longrightarrow> nonBlankRows h excelData = []"
  by (simp add: nonBlankRows_def filter_empty_conv)

lemma rvtLinkPinnedCheck_verdicts:
  assumes "selected"
    and "find (\<lambda>h. trim (toLowerCase env h) = str ''rvt link is pinned'') (headersOf excelData) = Some h"
    and "h \<noteq> []" and "nonBlankRows h excelData \<noteq> []"
  shows "map_option (map status) (rvtLinkPinnedCheck env selected excelData) =
     Some (map (\<lambda>r. if toLowerCase env (toStr (getProp r h)) = str ''true'' then Valid else Invalid)
             (nonBlankRows h excelData))"
  using assms by (simp add: rvtLinkPinnedCheck_def rvtLinkRow_def Let_def comp_def)

text \<open>
  C7. The claim says that a row of the boolean-pin check whose cell is non-empty after
  trimming is \<open>Valid\<close> if and only if the trimmed lower-case value of the cell is
  \<open>true\<close>. The filter trims the cell to decide that it is not empty, but the comparison
  is \<open>String(r[h]).toLowerCase() === 'true'\<close>, without the trim: a cell \<open>true\<close> followed
  by a space, whose trimmed lower-case value is \<open>true\<close>, is marked \<open>Invalid\<close>.
\<close>

theorem rvtLinkPinned_padded_true:
  "map_option (map status)
     (rvtLinkPinnedCheck asciiEnv True [[(str ''RVT Link is pinned'', JStr (str ''true ''))]])
     = Some [Invalid]
   \<and> toLowerCase asciiEnv (trim (str ''true '')) = str ''true''"
  by (simp add: string_eval env_eval value_eval checker_eval split del: if_split)

text \<open>
  C8. The two checks differ when no row applies. When the check is selected, the column
  of the boolean-pin check is located and all its cells are empty (\<open>String(r[h] ?? '')\<close>
  trims to the empty string), the result is exactly one record, with status \<open>Valid\<close>;
  under the same conditions on the column of the Navisworks view name, the result is
  exactly one record, with status \<open>Invalid\<close>.
\<close>

theorem zero_applicable_rows_asymmetry:
  "(selected
      \<and> find (\<lambda>h. trim (toLowerCase env h) = str ''rvt link is pinned'') (headersOf excelData) = Some h
      \<and> h \<noteq> []
      \<and> (\<forall>r \<in> set excelData. trim (toStr (coalesce (getProp r h) (JStr []))) = [])
    \<longrightarrow> (\<exists>v. rvtLinkPinnedCheck env selected excelData = Some [v] \<and> status v = Valid))
   \<and> (selected
      \<and> find (\<lambda>h. trim (toLowerCase env h) = str ''navisworks view name'') (headersOf excelData) = Some k
      \<and> k \<noteq> []
      \<and> (\<forall>r \<in> set excelData. trim (toStr (coalesce (getProp r k) (JStr []))) = [])
    \<longrightarrow> (\<exists>v. navisworksViewNameCheck env selected excelData = Some [v] \<and> status v = Invalid))"
  by (simp add: rvtLinkPinnedCheck_def navisworksViewNameCheck_def nonBlankRows_empty)

theorem zero_applicable_rows_asymmetry_witness:
  "find (\<lambda>h. trim (toLowerCase asciiEnv h) = str ''rvt link is pinned'')
       (headersOf [[(str ''RVT Link is pinned'', JStr []), (str ''Navisworks view name'', JStr (str '' ''))]])
     = Some (str ''RVT Link is pinned'')
   \<and> find (\<lambda>h. trim (toLowerCase asciiEnv h) = str ''navisworks view name'')
       (headersOf [[(str ''RVT Link is pinned'', JStr []), (str ''Navisworks view name'', JStr (str '' ''))]])
     = Some (str ''Navisworks view name'')
   \<and> nonBlankRows (str ''RVT Link is pinned'')
        [[(str ''RVT Link is pinned'', JStr []), (str ''Navisworks view name'', JStr (str '' ''))]] = []
   \<and> nonBlankRows (str ''Navisworks view name'')
        [[(str ''RVT Link is pinned'', JStr []), (str ''Navisworks view name'', JStr (str '' ''))]] = []
   \<and> map_option (map status) (rvtLinkPinnedCheck asciiEnv True
        [[(str ''RVT Link is pinned'', JStr []), (str ''Navisworks view name'', JStr (str '' ''))]])
       = Some [Valid]
   \<and> map_option (map status) (navisworksViewNameCheck asciiEnv True
        [[(str ''RVT Link is pinned'', JStr []), (str ''Navisworks view name'', JStr (str '' ''))]])
       = Some [Invalid]"
  using zero_applicable_rows_asymmetry [of True asciiEnv
      "[[(str ''RVT Link is pinned'', JStr []), (str ''Navisworks view name'', JStr (str '' ''))]]"
      "str ''RVT Link is pinned''" "str ''Navisworks view name''"]
  by (simp add: string_eval env_eval value_eval checker_eval split del: if_split)

section \<open>Dataset Reconciler: properties\<close>

subsection \<open>Ingestion\<close>

lemma foldl_setAdd:
  "set (foldl (\<lambda>s x. setAdd x s) acc xs) = set acc \<union> set xs
   \<and> (distinct acc \<longrightarrow> distinct (foldl (\<lambda>s x. setAdd x s) acc xs))"
  by (induction xs arbitrary: acc) (auto simp: setAdd_def)


lemma ingestRow_skip:
  "rowBaseName nameH r = [] \<Longrightarrow> ingestRow env nameH fmtH msH st r = st"
  by (simp add: ingestRow_def)

lemma ingestRow_step:
  assumes "rowBaseName nameH r \<noteq> []"
  shows "\<exists>item'.
     map_of (data (ingestRow env nameH fmtH msH st r))
       = (map_of (data st))(toLowerCase env (rowBaseName nameH r) \<mapsto> item')
     \<and> originalCase item' =
         (case map_of (data st) (toLowerCase env (rowBaseName nameH r)) of
            None \<Rightarrow> rowBaseName nameH r | Some i \<Rightarrow> originalCase i)
     \<and> map_of (formatCounts item') =
         (let old = (case map_of (data st) (toLowerCase env (rowBaseName nameH r)) of
                       None \<Rightarrow> Map.empty | Some i \<Rightarrow> map_of (formatCounts i));
              ext = rowExtension env fmtH r
          in if ext \<noteq> [] then old(ext \<mapsto> (case old ext of None \<Rightarrow> 0 | Some c \<Rightarrow> c) + 1)
             else old)
     \<and> set (milestones item') =
         set (foldl (addRowMilestone env r) [] msH)
         \<union> (case map_of (data st) (toLowerCase env (rowBaseName nameH r)) of
              None \<Rightarrow> {} | Some i \<Rightarrow> set (milestones i))"
proof (cases "map_of (data st) (toLowerCase env (rowBaseName nameH r))")
  case None
  show ?thesis
  proof (cases "rowExtension env fmtH r = []")
    case True
    with None assms show ?thesis
      by (intro exI[of _ "\<lparr>originalCase = rowBaseName nameH r, formatCounts = [],
             milestones = foldl (addRowMilestone env r) [] msH\<rparr>"])
         (auto simp add: ingestRow_def Let_def AList.update_conv' foldl_setAdd)
  next
    case False
    with None assms show ?thesis
      by (intro exI[of _ "\<lparr>originalCase = rowBaseName nameH r,
             formatCounts = [(rowExtension env fmtH r, Suc 0)],
             milestones = foldl (addRowMilestone env r) [] msH\<rparr>"])
         (auto simp add: ingestRow_def Let_def AList.update_conv' foldl_setAdd)
  qed
next
  case (Some i)
  let ?i1 = "i\<lparr>milestones := foldl (\<lambda>ms m. setAdd m ms) (milestones i)
                (foldl (addRowMilestone env r) [] msH)\<rparr>"
  show ?thesis
  proof (cases "rowExtension env fmtH r = []")
    case True
    with Some assms show ?thesis
      by (intro exI[of _ ?i1]) (auto simp add: ingestRow_def Let_def AList.update_conv' foldl_setAdd)
  next
    case False
    with Some assms show ?thesis
      by (intro exI[of _ "?i1\<lparr>formatCounts :=
             AList.update (rowExtension env fmtH r)
               ((case map_of (formatCounts i) (rowExtension env fmtH r) of
                   None \<Rightarrow> 0 | Some c \<Rightarrow> c) + 1) (formatCounts i)\<rparr>"])
         (auto simp add: ingestRow_def Let_def AList.update_conv' foldl_setAdd)
  qed
qed


lemma ingest_snoc:
  "ingest env nameH fmtH msH (rows @ [r]) = ingestRow env nameH fmtH msH (ingest env nameH fmtH msH rows) r"
  by (simp add: ingest_def)

lemma ingest_Nil: "data (ingest env nameH fmtH msH []) = []"
  by (simp add: ingest_def)

lemma ingest_items:
  "map_of (data (ingest env nameH fmtH msH rows)) k = Some item \<Longrightarrow>
     toLowerCase env (originalCase item) = k \<and> originalCase item \<noteq> []
     \<and> (\<forall>f c. map_of (formatCounts item) f = Some c \<longrightarrow> 1 \<le> c)"
proof (induction rows arbitrary: k item rule: rev_induct)
  case Nil
  then show ?case by (simp add: ingest_Nil)
next
  case (snoc r rows)
  let ?st = "ingest env nameH fmtH msH rows"
  let ?key = "toLowerCase env (rowBaseName nameH r)"
  show ?case
  proof (cases "rowBaseName nameH r = []")
    case True
    with snoc show ?thesis by (simp add: ingest_snoc ingestRow_skip)
  next
    case False
    from ingestRow_step[OF False, of env fmtH msH ?st] obtain item' where
      m: "map_of (data (ingestRow env nameH fmtH msH ?st r)) = (map_of (data ?st))(?key \<mapsto> item')"
      and oc: "originalCase item' =
         (case map_of (data ?st) ?key of None \<Rightarrow> rowBaseName nameH r | Some i \<Rightarrow> originalCase i)"
      and fc: "map_of (formatCounts item') =
         (let old = (case map_of (data ?st) ?key of
                       None \<Rightarrow> Map.empty | Some i \<Rightarrow> map_of (formatCounts i));
              ext = rowExtension env fmtH r
          in if ext \<noteq> [] then old(ext \<mapsto> (case old ext of None \<Rightarrow> 0 | Some c \<Rightarrow> c) + 1)
             else old)"
      by blast
    show ?thesis
    proof (cases "k = ?key")
      case k: False
      with snoc.prems m have "map_of (data ?st) k = Some item"
        by (simp add: ingest_snoc)
      then show ?thesis by (rule snoc.IH)
    next
      case True
      with snoc.prems m have item: "item = item'" by (simp add: ingest_snoc)
      show ?thesis
      proof (cases "map_of (data ?st) ?key")
        case None
        with oc fc False True show ?thesis
          unfolding item by (auto simp: Let_def split: if_splits)
      next
        case (Some i)
        from snoc.IH[OF Some] oc fc Some True show ?thesis
          unfolding item by (auto simp: Let_def split: if_splits)
      qed
    qed
  qed
qed


lemma formatPairs_dom:
  "formatPairs m = {(k, f). \<exists>item. map_of m k = Some item \<and> f \<in> dom (map_of (formatCounts item))}"
  by (simp add: formatPairs_def dom_map_of_conv_image_fst)

lemma formatPairs_step:
  assumes "rowBaseName nameH r \<noteq> []"
  shows "formatPairs (data (ingestRow env nameH fmtH msH st r)) =
     formatPairs (data st) \<union>
       (if rowExtension env fmtH r \<noteq> []
        then {(toLowerCase env (rowBaseName nameH r), rowExtension env fmtH r)} else {})"
proof -
  let ?key = "toLowerCase env (rowBaseName nameH r)"
  let ?ext = "rowExtension env fmtH r"
  from ingestRow_step[OF assms, of env fmtH msH st] obtain item' where
    m: "map_of (data (ingestRow env nameH fmtH msH st r)) = (map_of (data st))(?key \<mapsto> item')"
    and fc: "map_of (formatCounts item') =
       (let old = (case map_of (data st) ?key of
                     None \<Rightarrow> Map.empty | Some i \<Rightarrow> map_of (formatCounts i));
            ext = ?ext
        in if ext \<noteq> [] then old(ext \<mapsto> (case old ext of None \<Rightarrow> 0 | Some c \<Rightarrow> c) + 1)
           else old)"
    by blast
  have d: "dom (map_of (formatCounts item')) =
      (case map_of (data st) ?key of None \<Rightarrow> {} | Some i \<Rightarrow> dom (map_of (formatCounts i)))
      \<union> (if ?ext \<noteq> [] then {?ext} else {})"
    unfolding fc by (auto simp: Let_def split: option.splits)
  have "(k, f) \<in> formatPairs (data (ingestRow env nameH fmtH msH st r)) \<longleftrightarrow>
        (k, f) \<in> formatPairs (data st) \<union> (if ?ext \<noteq> [] then {(?key, ?ext)} else {})" for k f
  proof (cases "k = ?key")
    case True
    then show ?thesis
      unfolding formatPairs_dom m using d
      by (cases "map_of (data st) ?key") (auto split: if_splits)
  next
    case False
    then show ?thesis
      unfolding formatPairs_dom m by (auto split: if_splits)
  qed
  then show ?thesis by (auto simp del: Un_iff) 
qed

lemma ingest_formatPairs:
  "formatPairs (data (ingest env nameH fmtH msH rows)) =
     {(toLowerCase env (rowBaseName nameH r), rowExtension env fmtH r) | r.
        r \<in> set rows \<and> rowBaseName nameH r \<noteq> [] \<and> rowExtension env fmtH r \<noteq> []}"
proof (induction rows rule: rev_induct)
  case Nil
  show ?case by (simp add: ingest_Nil formatPairs_def)
next
  case (snoc r rows)
  show ?case
  proof (cases "rowBaseName nameH r = []")
    case True
    with snoc show ?thesis by (auto simp add: ingest_snoc ingestRow_skip)
  next
    case False
    show ?thesis
      unfolding ingest_snoc formatPairs_step[OF False] snoc.IH using False by auto
  qed
qed

lemma ingest_keys:
  "dom (map_of (data (ingest env nameH fmtH msH rows))) =
     {toLowerCase env (rowBaseName nameH r) | r. r \<in> set rows \<and> rowBaseName nameH r \<noteq> []}"
proof (induction rows rule: rev_induct)
  case Nil
  show ?case by (simp add: ingest_Nil)
next
  case (snoc r rows)
  show ?case
  proof (cases "rowBaseName nameH r = []")
    case True
    with snoc show ?thesis by (auto simp add: ingest_snoc ingestRow_skip)
  next
    case False
    from ingestRow_step[OF False, of env fmtH msH "ingest env nameH fmtH msH rows"] obtain item' where
      m: "map_of (data (ingestRow env nameH fmtH msH (ingest env nameH fmtH msH rows) r))
           = (map_of (data (ingest env nameH fmtH msH rows)))(toLowerCase env (rowBaseName nameH r) \<mapsto> item')"
      by blast
    have "dom (map_of (data (ingest env nameH fmtH msH (rows @ [r])))) =
        insert (toLowerCase env (rowBaseName nameH r))
          (dom (map_of (data (ingest env nameH fmtH msH rows))))"
      by (simp add: ingest_snoc m)
    then show ?thesis
      unfolding snoc.IH using False by auto
  qed
qed


lemma ingest_milestones:
  "r \<in> set rows \<Longrightarrow> rowBaseName nameH r \<noteq> [] \<Longrightarrow>
     \<exists>item. map_of (data (ingest env nameH fmtH msH rows)) (toLowerCase env (rowBaseName nameH r)) = Some item
       \<and> set (foldl (addRowMilestone env r) [] msH) \<subseteq> set (milestones item)"
proof (induction rows rule: rev_induct)
  case Nil
  then show ?case by simp
next
  case (snoc x rows)
  let ?st = "ingest env nameH fmtH msH rows"
  let ?key = "toLowerCase env (rowBaseName nameH r)"
  show ?case
  proof (cases "rowBaseName nameH x = []")
    case True
    with snoc show ?thesis by (auto simp add: ingest_snoc ingestRow_skip)
  next
    case False
    from ingestRow_step[OF False, of env fmtH msH ?st] obtain item' where
      m: "map_of (data (ingestRow env nameH fmtH msH ?st x))
            = (map_of (data ?st))(toLowerCase env (rowBaseName nameH x) \<mapsto> item')"
      and ms: "set (milestones item') =
         set (foldl (addRowMilestone env x) [] msH)
         \<union> (case map_of (data ?st) (toLowerCase env (rowBaseName nameH x)) of
              None \<Rightarrow> {} | Some i \<Rightarrow> set (milestones i))"
      by blast
    show ?thesis
    proof (cases "toLowerCase env (rowBaseName nameH x) = ?key")
      case same: True
      show ?thesis
      proof (cases "r = x")
        case True
        with m ms show ?thesis by (auto simp add: ingest_snoc)
      next
        case False
        with snoc.prems have "r \<in> set rows" by simp
        from snoc.IH[OF this snoc.prems(2)] obtain item where
          "map_of (data ?st) ?key = Some item"
          "set (foldl (addRowMilestone env r) [] msH) \<subseteq> set (milestones item)" by blast
        with m ms same show ?thesis by (auto simp add: ingest_snoc)
      qed
    next
      case differ: False
      then have "r \<noteq> x" by auto
      with snoc.prems have "r \<in> set rows" by simp
      from snoc.IH[OF this snoc.prems(2)] m differ show ?thesis
        by (auto simp add: ingest_snoc)
    qed
  qed
qed

subsection \<open>Comparison\<close>

lemma mset_insertBy: "mset (insertBy cmp x ys) = add_mset x (mset ys)"
  by (induction ys) auto

lemma mset_sortBy: "mset (sortBy cmp xs) = mset xs"
  unfolding sortBy_def by (induction xs) (auto simp: mset_insertBy)

lemma set_newSet: "set (newSet xs) = set xs"
  by (simp add: newSet_def foldl_setAdd)




lemma itemKeys_iff:
  "f \<in> set (itemKeys (map_of m k)) \<longleftrightarrow> (k, f) \<in> formatPairs m"
  by (cases "map_of m k") (auto simp: itemKeys_def formatPairs_def)

lemma formatPairs_key: "(k, f) \<in> formatPairs m \<Longrightarrow> k \<in> fst ` set m"
  by (auto simp: formatPairs_def dest: map_of_SomeD intro: rev_image_eqI)

lemma set_keyed_concat:
  "(k, f) \<in> set (concat (map (\<lambda>k. map (Pair k) (g k)) ks)) \<longleftrightarrow> k \<in> set ks \<and> f \<in> set (g k)"
  by (induction ks) auto

lemma set_comparedPairs:
  "set (comparedPairs midpMap accMap) = formatPairs midpMap \<union> formatPairs accMap"
proof -
  have "(k, f) \<in> set (comparedPairs midpMap accMap)
          \<longleftrightarrow> (k, f) \<in> formatPairs midpMap \<union> formatPairs accMap" for k f
  proof -
    have "(k, f) \<in> set (comparedPairs midpMap accMap)
        \<longleftrightarrow> (k \<in> fst ` set midpMap \<or> k \<in> fst ` set accMap)
            \<and> ((k, f) \<in> formatPairs midpMap \<or> (k, f) \<in> formatPairs accMap)"
      unfolding comparedPairs_def set_keyed_concat
      by (simp add: set_newSet itemKeys_iff)
    also have "\<dots> \<longleftrightarrow> (k, f) \<in> formatPairs midpMap \<or> (k, f) \<in> formatPairs accMap"
      using formatPairs_key[of k f midpMap] formatPairs_key[of k f accMap] by blast
    finally show ?thesis by simp
  qed
  then show ?thesis by auto
qed

lemma results_as_pairs:
  "concat (map (compareBaseName env midpMap accMap) (newSet (map fst midpMap @ map fst accMap)))
     = map (\<lambda>(k, f). comparisonItem env midpMap accMap k f) (comparedPairs midpMap accMap)"
proof -
  have "compareBaseName env midpMap accMap =
      (\<lambda>k. map (comparisonItem env midpMap accMap k)
             (newSet (itemKeys (map_of midpMap k) @ itemKeys (map_of accMap k))))"
    by (rule ext) (simp add: compareBaseName_def)
  then show ?thesis
    by (simp add: comparedPairs_def map_concat comp_def)
qed


lemma set_comparisonResults:
  "set (comparisonResults env midpMap accMap) =
     (\<lambda>(k, f). comparisonItem env midpMap accMap k f) ` (formatPairs midpMap \<union> formatPairs accMap)"
proof -
  have "set (comparisonResults env midpMap accMap) = set_mset (mset (comparisonResults env midpMap accMap))"
    by simp
  also have "\<dots> = set (map (\<lambda>(k, f). comparisonItem env midpMap accMap k f) (comparedPairs midpMap accMap))"
    by (simp only: comparisonResults_def Let_def mset_sortBy results_as_pairs set_mset_mset)
  finally show ?thesis by (simp add: set_comparedPairs)
qed

lemma countFor_ingest:
  assumes "(k, f) \<in> formatPairs (data (ingest env nameH fmtH msH rows))"
  shows "1 \<le> countFor (map_of (data (ingest env nameH fmtH msH rows)) k) f"
proof -
  from assms obtain item where
    item: "map_of (data (ingest env nameH fmtH msH rows)) k = Some item"
    and f: "f \<in> dom (map_of (formatCounts item))"
    by (auto simp: formatPairs_dom)
  from f obtain c where c: "map_of (formatCounts item) f = Some c" by auto
  with ingest_items[OF item] have "1 \<le> c" by blast
  with item c show ?thesis by (simp add: countFor_def)
qed


lemma originalNameOf_ingest:
  assumes "(k, f) \<in> formatPairs (data (ingest env nameA fmtA msA rowsA))
             \<union> formatPairs (data (ingest env nameB fmtB msB rowsB))"
  shows "toLowerCase env
           (originalNameOf (map_of (data (ingest env nameA fmtA msA rowsA)) k)
                           (map_of (data (ingest env nameB fmtB msB rowsB)) k) k) = k"
proof -
  let ?a = "map_of (data (ingest env nameA fmtA msA rowsA)) k"
  let ?b = "map_of (data (ingest env nameB fmtB msB rowsB)) k"
  have a: "toLowerCase env (originalCase i) = k \<and> originalCase i \<noteq> []" if "?a = Some i" for i
    using ingest_items[OF that] by simp
  have b: "toLowerCase env (originalCase i) = k \<and> originalCase i \<noteq> []" if "?b = Some i" for i
    using ingest_items[OF that] by simp
  from assms have "?a \<noteq> None \<or> ?b \<noteq> None"
    by (auto simp: formatPairs_def)
  then show ?thesis
    using a b by (cases ?a; cases ?b) (auto simp: originalNameOf_def)
qed



text \<open>
  C10. Every record that the reconciler emits has \<open>midpCount \<ge> 1\<close> or \<open>accCount \<ge> 1\<close>,
  and comes from a row of one of the two sheets that carries its base name and its
  format with a non-empty value. A row with a base name contributes an entry for the
  base name, with its milestone tags, also when its format cell is empty; a base name
  whose rows all have an empty format is absent from the output.
\<close>

theorem reconcile_counts_positive:
  "let midpData = ingest env nameA fmtA msA rowsA;
       accData = ingest env nameB fmtB msB rowsB
   in \<exists>results.
        handleCompare env (Some midpData) (Some accData) = Some results
        \<and> (\<forall>r \<in> set results.
              (1 \<le> midpCount r \<or> 1 \<le> accCount r)
              \<and> ((\<exists>x \<in> set rowsA. rowBaseName nameA x \<noteq> [] \<and> rowExtension env fmtA x \<noteq> []
                      \<and> toLowerCase env (baseName r) = toLowerCase env (rowBaseName nameA x)
                      \<and> format r = toUpperCase env (rowExtension env fmtA x))
                  \<or> (\<exists>x \<in> set rowsB. rowBaseName nameB x \<noteq> [] \<and> rowExtension env fmtB x \<noteq> []
                      \<and> toLowerCase env (baseName r) = toLowerCase env (rowBaseName nameB x)
                      \<and> format r = toUpperCase env (rowExtension env fmtB x))))
        \<and> (\<forall>x \<in> set rowsA. rowBaseName nameA x \<noteq> [] \<longrightarrow>
              (\<exists>item. map_of (data midpData) (toLowerCase env (rowBaseName nameA x)) = Some item
                 \<and> set (foldl (addRowMilestone env x) [] msA) \<subseteq> set (milestones item)))
        \<and> (\<forall>x \<in> set rowsB. rowBaseName nameB x \<noteq> [] \<longrightarrow>
              (\<exists>item. map_of (data accData) (toLowerCase env (rowBaseName nameB x)) = Some item
                 \<and> set (foldl (addRowMilestone env x) [] msB) \<subseteq> set (milestones item)))
        \<and> (\<forall>k. (\<forall>x \<in> set rowsA. rowBaseName nameA x \<noteq> []
                      \<and> toLowerCase env (rowBaseName nameA x) = k \<longrightarrow> rowExtension env fmtA x = [])
               \<and> (\<forall>x \<in> set rowsB. rowBaseName nameB x \<noteq> []
                      \<and> toLowerCase env (rowBaseName nameB x) = k \<longrightarrow> rowExtension env fmtB x = [])
               \<longrightarrow> (\<forall>r \<in> set results. toLowerCase env (baseName r) \<noteq> k))"
proof -
  let ?A = "data (ingest env nameA fmtA msA rowsA)"
  let ?B = "data (ingest env nameB fmtB msB rowsB)"
  let ?fromA = "\<lambda>r. \<exists>x \<in> set rowsA. rowBaseName nameA x \<noteq> [] \<and> rowExtension env fmtA x \<noteq> []
                      \<and> toLowerCase env (baseName r) = toLowerCase env (rowBaseName nameA x)
                      \<and> format r = toUpperCase env (rowExtension env fmtA x)"
  let ?fromB = "\<lambda>r. \<exists>x \<in> set rowsB. rowBaseName nameB x \<noteq> [] \<and> rowExtension env fmtB x \<noteq> []
                      \<and> toLowerCase env (baseName r) = toLowerCase env (rowBaseName nameB x)
                      \<and> format r = toUpperCase env (rowExtension env fmtB x)"
  have each: "(1 \<le> midpCount r \<or> 1 \<le> accCount r) \<and> (?fromA r \<or> ?fromB r)"
    if "r \<in> set (comparisonResults env ?A ?B)" for r
  proof -
    from that obtain k f where kf: "(k, f) \<in> formatPairs ?A \<union> formatPairs ?B"
      and r: "r = comparisonItem env ?A ?B k f"
      unfolding set_comparisonResults by auto
    from kf have cnt: "1 \<le> countFor (map_of ?A k) f \<or> 1 \<le> countFor (map_of ?B k) f"
      using countFor_ingest by blast
    have bn: "toLowerCase env (baseName r) = k"
      unfolding r using originalNameOf_ingest[OF kf] by (simp add: comparisonItem_def Let_def)
    have fm: "format r = toUpperCase env f"
      unfolding r by (simp add: comparisonItem_def Let_def)
    from kf have "?fromA r \<or> ?fromB r"
      unfolding ingest_formatPairs bn fm by blast
    with cnt show ?thesis
      unfolding r by (simp add: comparisonItem_def Let_def)
  qed
  have absent: "toLowerCase env (baseName r) \<noteq> k"
    if "r \<in> set (comparisonResults env ?A ?B)"
      and "\<forall>x \<in> set rowsA. rowBaseName nameA x \<noteq> []
              \<and> toLowerCase env (rowBaseName nameA x) = k \<longrightarrow> rowExtension env fmtA x = []"
      and "\<forall>x \<in> set rowsB. rowBaseName nameB x \<noteq> []
              \<and> toLowerCase env (rowBaseName nameB x) = k \<longrightarrow> rowExtension env fmtB x = []"
    for r k
  proof
    assume eq: "toLowerCase env (baseName r) = k"
    from each[OF that(1)] have "?fromA r \<or> ?fromB r" by simp
    then show False
    proof
      assume "?fromA r"
      then obtain x where "x \<in> set rowsA" "rowBaseName nameA x \<noteq> []"
        "rowExtension env fmtA x \<noteq> []"
        "toLowerCase env (baseName r) = toLowerCase env (rowBaseName nameA x)" by blast
      with that(2) eq show False by auto
    next
      assume "?fromB r"
      then obtain x where "x \<in> set rowsB" "rowBaseName nameB x \<noteq> []"
        "rowExtension env fmtB x \<noteq> []"
        "toLowerCase env (baseName r) = toLowerCase env (rowBaseName nameB x)" by blast
      with that(3) eq show False by auto
    qed
  qed
  have entryA: "\<exists>item. map_of ?A (toLowerCase env (rowBaseName nameA x)) = Some item
                 \<and> set (foldl (addRowMilestone env x) [] msA) \<subseteq> set (milestones item)"
    if "x \<in> set rowsA" "rowBaseName nameA x \<noteq> []" for x
    using ingest_milestones[OF that] .
  have entryB: "\<exists>item. map_of ?B (toLowerCase env (rowBaseName nameB x)) = Some item
                 \<and> set (foldl (addRowMilestone env x) [] msB) \<subseteq> set (milestones item)"
    if "x \<in> set rowsB" "rowBaseName nameB x \<noteq> []" for x
    using ingest_milestones[OF that] .
  show ?thesis
    unfolding Let_def handleCompare_def option.case
    by (intro exI[of _ "comparisonResults env ?A ?B"] conjI ballI allI impI refl)
       (use each entryA entryB absent in blast)+
qed

subsection \<open>A worked comparison\<close>

text \<open>
  The required sheet lists \<open>B\<close> without a format and \<open>C\<close> as \<open>.dwg\<close>; the actual sheet
  lists \<open>c\<close> as \<open>DWG\<close>.
\<close>

lemma example_ingest_midp:
  "ingest asciiEnv (str ''Model Name'') (str ''Format'') []
     [[(str ''Model Name'', JStr (str ''B'')), (str ''Format'', JStr [])],
      [(str ''Model Name'', JStr (str ''C'')), (str ''Format'', JStr (str ''.dwg''))]]
   = \<lparr>data = [(str ''b'', \<lparr>originalCase = str ''B'', formatCounts = [], milestones = []\<rparr>),
              (str ''c'', \<lparr>originalCase = str ''C'', formatCounts = [(str ''dwg'', 1)],
                          milestones = []\<rparr>)],
      totalRows = 2\<rparr>"
  by (simp add: string_eval env_eval value_eval reconciler_eval split del: if_split)

lemma example_ingest_acc:
  "ingest asciiEnv (str ''Model Name'') (str ''Format'') []
     [[(str ''Model Name'', JStr (str ''c'')), (str ''Format'', JStr (str ''DWG''))]]
   = \<lparr>data = [(str ''c'', \<lparr>originalCase = str ''c'', formatCounts = [(str ''dwg'', 1)],
                          milestones = []\<rparr>)],
      totalRows = 1\<rparr>"
  by (simp add: string_eval env_eval value_eval reconciler_eval split del: if_split)

lemma example_compare:
  "handleCompare asciiEnv
     (Some \<lparr>data = [(str ''b'', \<lparr>originalCase = str ''B'', formatCounts = [], milestones = []\<rparr>),
              (str ''c'', \<lparr>originalCase = str ''C'', formatCounts = [(str ''dwg'', 1)],
                          milestones = []\<rparr>)],
      totalRows = 2\<rparr>)
     (Some \<lparr>data = [(str ''c'', \<lparr>originalCase = str ''c'', formatCounts = [(str ''dwg'', 1)],
                          milestones = []\<rparr>)],
      totalRows = 1\<rparr>)
   = Some [\<lparr>baseName = str ''C'', format = str ''DWG'', itemStatus = matched,
            midpCount = 1, accCount = 1, itemMilestones = []\<rparr>]"
  by (simp add: string_eval env_eval value_eval reconciler_eval split del: if_split)


lemma example_handleCompare:
  "handleCompare asciiEnv (Some (ingest asciiEnv (str ''Model Name'') (str ''Format'') []
       [[(str ''Model Name'', JStr (str ''B'')), (str ''Format'', JStr [])],
        [(str ''Model Name'', JStr (str ''C'')), (str ''Format'', JStr (str ''.dwg''))]]))
     (Some (ingest asciiEnv (str ''Model Name'') (str ''Format'') []
       [[(str ''Model Name'', JStr (str ''c'')), (str ''Format'', JStr (str ''DWG''))]]))
   = Some [\<lparr>baseName = str ''C'', format = str ''DWG'', itemStatus = matched,
            midpCount = 1, accCount = 1, itemMilestones = []\<rparr>]"
  by (simp only: example_ingest_midp example_ingest_acc example_compare)



theorem reconcile_counts_positive_witness:
  "map_option (map (\<lambda>r. (baseName r, format r, midpCount r, accCount r)))
     (handleCompare asciiEnv (Some (ingest asciiEnv (str ''Model Name'') (str ''Format'') []
       [[(str ''Model Name'', JStr (str ''B'')), (str ''Format'', JStr [])],
        [(str ''Model Name'', JStr (str ''C'')), (str ''Format'', JStr (str ''.dwg''))]]))
        (Some (ingest asciiEnv (str ''Model Name'') (str ''Format'') []
       [[(str ''Model Name'', JStr (str ''c'')), (str ''Format'', JStr (str ''DWG''))]])))
     = Some [(str ''C'', str ''DWG'', 1, 1)]
   \<and> map fst (data (ingest asciiEnv (str ''Model Name'') (str ''Format'') []
       [[(str ''Model Name'', JStr (str ''B'')), (str ''Format'', JStr [])],
        [(str ''Model Name'', JStr (str ''C'')), (str ''Format'', JStr (str ''.dwg''))]])) = [str ''b'', str ''c'']"
proof -
  from reconcile_counts_positive [of asciiEnv "str ''Model Name''" "str ''Format''" "[]"
      "[[(str ''Model Name'', JStr (str ''B'')), (str ''Format'', JStr [])],
        [(str ''Model Name'', JStr (str ''C'')), (str ''Format'', JStr (str ''.dwg''))]]" "str ''Model Name''" "str ''Format''" "[]"
      "[[(str ''Model Name'', JStr (str ''c'')), (str ''Format'', JStr (str ''DWG''))]]"]
  have "\<exists>results. handleCompare asciiEnv (Some (ingest asciiEnv (str ''Model Name'') (str ''Format'') []
       [[(str ''Model Name'', JStr (str ''B'')), (str ''Format'', JStr [])],
        [(str ''Model Name'', JStr (str ''C'')), (str ''Format'', JStr (str ''.dwg''))]]))
       (Some (ingest asciiEnv (str ''Model Name'') (str ''Format'') []
       [[(str ''Model Name'', JStr (str ''c'')), (str ''Format'', JStr (str ''DWG''))]])) = Some results
      \<and> (\<forall>r \<in> set results. 1 \<le> midpCount r \<or> 1 \<le> accCount r)"
    unfolding Let_def
    apply (elim exE conjE)
    apply (rule exI, rule conjI, assumption)
    apply (rule ballI, drule (1) bspec, erule conjE, assumption)
    done
  then obtain results where
    "handleCompare asciiEnv (Some (ingest asciiEnv (str ''Model Name'') (str ''Format'') []
       [[(str ''Model Name'', JStr (str ''B'')), (str ''Format'', JStr [])],
        [(str ''Model Name'', JStr (str ''C'')), (str ''Format'', JStr (str ''.dwg''))]]))
       (Some (ingest asciiEnv (str ''Model Name'') (str ''Format'') []
       [[(str ''Model Name'', JStr (str ''c'')), (str ''Format'', JStr (str ''DWG''))]])) = Some results"
    and "\<forall>r \<in> set results. 1 \<le> midpCount r \<or> 1 \<le> accCount r"
    by (elim exE conjE)
  with example_handleCompare have "(1::nat) \<le> 1" by simp
  with example_handleCompare example_ingest_midp show ?thesis by simp
qed

section \<open>Parameter compliance: properties\<close>

subsection \<open>Binary64 rounding\<close>

text \<open>
  \<open>roundToDouble\<close> returns a value with a significand of 53 bits, within half a unit
  in the last place of the exact fraction: the relative error is at most \<open>2^-53\<close>.
\<close>

lemma bitLength_bounds:
  "0 < n \<Longrightarrow> 2 ^ (bitLength n - 1) \<le> n \<and> n < 2 ^ bitLength n"
proof (induction n rule: bitLength.induct)
  case (1 n)
  show ?case
  proof (cases "n div 2 = 0")
    case True
    with 1 have "n = 1" by (simp add: div_eq_0_iff) 
    then show ?thesis by (simp add: bitLength.simps)
  next
    case False
    then have pos: "0 < n div 2" by simp
    from 1 have n: "n \<noteq> 0" by simp
    from 1(1)[OF n pos] have
      lo: "2 ^ (bitLength (n div 2) - 1) \<le> n div 2" and hi: "n div 2 < 2 ^ bitLength (n div 2)"
      by simp_all
    have bl: "bitLength n = Suc (bitLength (n div 2))"
      using n by (subst bitLength.simps) simp
    have bpos: "0 < bitLength (n div 2)"
      using pos by (subst bitLength.simps) simp
    from lo have "2 * 2 ^ (bitLength (n div 2) - 1) \<le> n" by linarith
    moreover have "2 * 2 ^ (bitLength (n div 2) - 1) = (2::nat) ^ bitLength (n div 2)"
      using bpos by (cases "bitLength (n div 2)") simp_all
    ultimately have l: "2 ^ (bitLength n - 1) \<le> n" by (simp add: bl)
    from hi have "n < 2 * 2 ^ bitLength (n div 2)" by linarith
    then have h: "n < 2 ^ bitLength n" by (simp add: bl)
    from l h show ?thesis by simp
  qed
qed

lemma round_half:
  fixes num den :: nat
  assumes "0 < den"
  shows "\<bar>real num / real den
          - real (if 2 * (num mod den) > den \<or> (2 * (num mod den) = den \<and> odd (num div den))
                  then num div den + 1 else num div den)\<bar> \<le> 1 / 2"
proof -
  let ?q = "num div den" and ?r = "num mod den"
  have "num = ?q * den + ?r" by simp
  then have "real num = real ?q * real den + real ?r"
    by (metis of_nat_add of_nat_mult)
  then have eq: "real num / real den = real ?q + real ?r / real den"
    using assms by (simp add: field_simps)
  have r: "?r < den" using assms by simp
  define x where "x = real ?r / real den"
  have eqx: "real num / real den = real ?q + x" using eq by (simp add: x_def)
  show ?thesis
  proof (cases "2 * ?r > den \<or> (2 * ?r = den \<and> odd ?q)")
    case True
    then have "den \<le> 2 * ?r" by auto
    then have "real den \<le> 2 * real ?r" by (metis of_nat_le_iff of_nat_mult of_nat_numeral)
    then have lo: "1 / 2 \<le> x" using assms by (simp add: x_def field_simps)
    have hi: "x < 1" using r assms by (simp add: x_def)
    have "\<bar>real num / real den - real (?q + 1)\<bar> \<le> 1 / 2"
      unfolding eqx using lo hi by simp
    with True show ?thesis by (simp only: if_True)
  next
    case False
    then have "2 * ?r \<le> den" by auto
    then have "2 * real ?r \<le> real den" by (metis of_nat_le_iff of_nat_mult of_nat_numeral)
    then have hi: "x \<le> 1 / 2" using assms by (simp add: x_def field_simps)
    have lo: "0 \<le> x" by (simp add: x_def)
    have "\<bar>real num / real den - real ?q\<bar> \<le> 1 / 2"
      unfolding eqx using lo hi by simp
    with False show ?thesis by (simp only: if_False)
  qed
qed


lemma roundToDouble_accuracy:
  assumes a: "0 < a" and b: "0 < b"
  shows "\<bar>doubleValue (roundToDouble a b) - real a / real b\<bar> \<le> (real a / real b) / 2 ^ 53"
proof -
  define num where "num = a * 2 ^ (53 + bitLength b)"
  define den0 where "den0 = b * 2 ^ bitLength a"
  define wide where "wide \<longleftrightarrow> num div den0 < 2 ^ 53"
  define den where "den = (if wide then den0 else 2 * den0)"
  define sh where "sh = (if wide then bitLength a else bitLength a + 1)"
  define q' where "q' = (if 2 * (num mod den) > den \<or> (2 * (num mod den) = den \<and> odd (num div den))
                         then num div den + 1 else num div den)"
  define s :: real where "s = 2 ^ sh / 2 ^ (53 + bitLength b)"
  have spos: "0 < s" by (simp add: s_def)
  have den0pos: "0 < den0" using b by (simp add: den0_def)
  have denpos: "0 < den" using den0pos by (simp add: den_def)
  have val: "doubleValue (roundToDouble a b) = real q' * s"
    using a
    by (simp add: roundToDouble_def Let_def doubleValue_def s_def q'_def sh_def den_def
          wide_def den0_def num_def)
  have scale: "real a / real b = (real num / real den) * s"
  proof (cases wide)
    case True
    then show ?thesis using a b
      by (simp add: s_def sh_def den_def den0_def num_def power_add field_simps)
  next
    case False
    then show ?thesis using a b
      by (simp add: s_def sh_def den_def den0_def num_def power_add field_simps)
  qed
  have half: "\<bar>real num / real den - real q'\<bar> \<le> 1 / 2"
    unfolding q'_def by (rule round_half[OF denpos])
  have big_nat: "2 ^ 52 * den \<le> num"
  proof (cases wide)
    case True
    from bitLength_bounds[OF a] have "2 ^ (bitLength a - 1) \<le> a" by simp
    moreover have "0 < bitLength a" using a by (subst bitLength.simps) simp
    ultimately have la: "2 ^ bitLength a \<le> 2 * a"
      by (cases "bitLength a") simp_all
    from bitLength_bounds[OF b] have lb: "b \<le> 2 ^ bitLength b" by simp
    have "2 ^ 52 * (b * 2 ^ bitLength a) \<le> 2 ^ 52 * (2 ^ bitLength b * (2 * a))"
      using la lb by (intro mult_le_mono le_refl)
    also have "\<dots> = a * 2 ^ (53 + bitLength b)"
      by (simp add: power_add)
    finally show ?thesis using True by (simp add: den_def den0_def num_def)
  next
    case False
    then have "2 ^ 53 \<le> num div den0" by (simp add: wide_def)
    then have "2 ^ 53 * den0 \<le> num"
      using den0pos by (simp add: less_eq_div_iff_mult_less_eq)
    with False show ?thesis by (simp add: den_def)
  qed
  have "real (2 ^ 52 * den) \<le> real num" using big_nat by (rule of_nat_mono)
  then have big: "2 ^ 52 \<le> real num / real den"
    using denpos by (simp add: field_simps)
  have "doubleValue (roundToDouble a b) - real a / real b
          = (real q' - real num / real den) * s"
    unfolding val scale by (simp only: left_diff_distrib)
  then have "\<bar>doubleValue (roundToDouble a b) - real a / real b\<bar>
          = \<bar>real q' - real num / real den\<bar> * \<bar>s\<bar>"
    by (simp only: abs_mult)
  also have "\<dots> = \<bar>real num / real den - real q'\<bar> * s"
    using spos by (simp only: abs_minus_commute abs_of_pos)
  also have "\<dots> \<le> (1 / 2) * s"
    using half spos by (intro mult_right_mono) simp_all
  also have "\<dots> \<le> ((real num / real den) * s) / 2 ^ 53"
  proof -
    have "2 ^ 52 * s \<le> (real num / real den) * s"
      using big spos by (intro mult_right_mono) simp_all
    then have "(2 ^ 52 * s) / 2 ^ 53 \<le> ((real num / real den) * s) / 2 ^ 53"
      by (intro divide_right_mono) simp_all
    moreover have "(1 / 2) * s = (2 ^ 52 * s) / 2 ^ 53" by simp
    ultimately show ?thesis by (simp only:)
  qed
  finally show ?thesis by (simp only: scale)
qed


lemma roundToDouble_denominator: "0 < snd (roundToDouble a b)"
  by (simp add: roundToDouble_def Let_def)

lemma roundToDouble_zero: "roundToDouble 0 b = (0, 1)"
  by (simp add: roundToDouble_def)

lemma roundToDouble_positive:
  assumes "0 < a" "0 < b"
  shows "0 < fst (roundToDouble a b)"
proof -
  have pos: "0 < real a / real b" using assms by simp
  have "real a / real b / 2 ^ 53 < real a / real b" using pos by simp
  with roundToDouble_accuracy[OF assms] have "0 < doubleValue (roundToDouble a b)" by linarith
  then show ?thesis
    using roundToDouble_denominator[of a b]
    by (cases "fst (roundToDouble a b) = 0") (simp_all add: doubleValue_def)
qed

lemma score_accuracy:
  assumes n: "0 < n"
  shows "\<bar>doubleValue (doubleTimes (doubleDivide m n) 100) - real m / real n * 100\<bar>
           \<le> (real m / real n * 100) / 2 ^ 51"
proof (cases "m = 0")
  case True
  then show ?thesis
    by (simp add: doubleDivide_def doubleTimes_def roundToDouble_zero doubleValue_def)
next
  case False
  then have m: "0 < m" by simp
  define x where "x = real m / real n"
  define d where "d = roundToDouble m n"
  define v where "v = doubleValue d"
  define w where "w = doubleValue (roundToDouble (fst d * 100) (snd d))"
  have xpos: "0 < x" using m n by (simp add: x_def)
  have d1: "0 < fst d" unfolding d_def by (rule roundToDouble_positive[OF m n])
  have d2: "0 < snd d" unfolding d_def by (rule roundToDouble_denominator)
  have e1: "\<bar>v - x\<bar> \<le> x / 2 ^ 53"
    unfolding v_def d_def x_def by (rule roundToDouble_accuracy[OF m n])
  have "real (fst d * 100) / real (snd d) = v * 100"
    by (simp add: v_def doubleValue_def)
  moreover have "0 < fst d * 100" using d1 by simp
  ultimately have e2: "\<bar>w - v * 100\<bar> \<le> (v * 100) / 2 ^ 53"
    using roundToDouble_accuracy[OF _ d2, of "fst d * 100"] by (simp add: w_def)
  from e1 have vx: "v \<le> x + x / 2 ^ 53" by linarith
  from e1 have "\<bar>v * 100 - x * 100\<bar> \<le> (x / 2 ^ 53) * 100"
    by (simp add: abs_if split: if_splits)
  moreover from e2 vx have "\<bar>w - v * 100\<bar> \<le> ((x + x / 2 ^ 53) * 100) / 2 ^ 53"
    by (simp add: field_simps)
  ultimately have "\<bar>w - x * 100\<bar> \<le> (x / 2 ^ 53) * 100 + ((x + x / 2 ^ 53) * 100) / 2 ^ 53"
    by linarith
  also have "\<dots> \<le> (x * 100) / 2 ^ 51"
    using xpos by (simp add: field_simps)
  finally show ?thesis
    by (simp add: w_def d_def x_def doubleTimes_def doubleDivide_def)
qed


lemma roundToDouble_significand:
  assumes a: "0 < a" and b: "0 < b"
  shows "\<exists>q sh. roundToDouble a b = (q * 2 ^ sh, 2 ^ (53 + bitLength b))
           \<and> 2 ^ 52 \<le> q \<and> q \<le> 2 ^ 53"
proof -
  define num where "num = a * 2 ^ (53 + bitLength b)"
  define den0 where "den0 = b * 2 ^ bitLength a"
  define wide where "wide \<longleftrightarrow> num div den0 < 2 ^ 53"
  define den where "den = (if wide then den0 else 2 * den0)"
  define sh where "sh = (if wide then bitLength a else bitLength a + 1)"
  define q' where "q' = (if 2 * (num mod den) > den \<or> (2 * (num mod den) = den \<and> odd (num div den))
                         then num div den + 1 else num div den)"
  have den0pos: "0 < den0" using b by (simp add: den0_def)
  have denpos: "0 < den" using den0pos by (simp add: den_def)
  have val: "roundToDouble a b = (q' * 2 ^ sh, 2 ^ (53 + bitLength b))"
    using a
    by (simp add: roundToDouble_def Let_def q'_def sh_def den_def wide_def den0_def num_def)
  from bitLength_bounds[OF a] have a_lo: "2 ^ (bitLength a - 1) \<le> a" and a_hi: "a < 2 ^ bitLength a"
    by simp_all
  from bitLength_bounds[OF b] have b_lo: "2 ^ (bitLength b - 1) \<le> b" and b_hi: "b < 2 ^ bitLength b"
    by simp_all
  have "0 < bitLength a" using a by (subst bitLength.simps) simp
  with a_lo have la: "2 ^ bitLength a \<le> 2 * a" by (cases "bitLength a") simp_all
  have "0 < bitLength b" using b by (subst bitLength.simps) simp
  with b_lo have lb: "2 ^ bitLength b \<le> 2 * b" by (cases "bitLength b") simp_all
  have lower: "2 ^ 52 \<le> num div den"
  proof (cases wide)
    case True
    have "2 ^ 52 * (b * 2 ^ bitLength a) \<le> 2 ^ 52 * (2 ^ bitLength b * (2 * a))"
      using la b_hi by (intro mult_le_mono le_refl) simp_all
    also have "\<dots> = a * 2 ^ (53 + bitLength b)" by (simp add: power_add)
    finally have "2 ^ 52 * den \<le> num" using True by (simp add: den_def den0_def num_def)
    then show ?thesis using denpos by (simp add: less_eq_div_iff_mult_less_eq)
  next
    case False
    then have "2 ^ 53 \<le> num div den0" by (simp add: wide_def)
    then have "2 ^ 53 * den0 \<le> num"
      using den0pos by (simp add: less_eq_div_iff_mult_less_eq)
    with False have "2 ^ 52 * den \<le> num" by (simp add: den_def)
    then show ?thesis using denpos by (simp add: less_eq_div_iff_mult_less_eq)
  qed
  have upper: "num div den < 2 ^ 53"
  proof (cases wide)
    case True
    then show ?thesis by (simp add: den_def wide_def)
  next
    case False
    have "a * (2 ^ 53 * 2 ^ bitLength b) < 2 ^ bitLength a * (2 ^ 53 * (2 * b))"
      using a_hi lb b by (intro mult_less_le_imp_less mult_le_mono le_refl) simp_all
    then have "num < 2 ^ 53 * den"
      using False by (simp add: den_def den0_def num_def power_add mult_ac)
    then show ?thesis using denpos by (simp add: div_less_iff_less_mult mult.commute)
  qed
  have "2 ^ 52 \<le> q'" and "q' \<le> 2 ^ 53"
    using lower upper by (simp_all add: q'_def)
  with val show ?thesis by blast
qed

subsection \<open>The score\<close>

lemma length_sortBy: "length (sortBy cmp xs) = length xs"
  using mset_sortBy[of cmp xs] by (metis size_mset)

text \<open>
  The score of the program for 11 matched parameters of 20 and for 2 of 3:
  \<open>55.00000000000001\<close> and \<open>66.66666666666666\<close>.
\<close>

lemma score_11_of_20:
  "doubleValue (doubleTimes (doubleDivide 11 20) 100) = 7740561859543041 / 140737488355328"
  by (simp add: number_eval Let_def split del: if_split)

lemma score_2_of_3:
  "doubleValue (doubleTimes (doubleDivide 2 3) 100) = 2345624805922133 / 35184372088832"
  by (simp add: number_eval Let_def split del: if_split)

text \<open>
  C9. When the data sheet has rows and a source-file column and a LOIN sheet with rows is
  uploaded, a compliance result is produced. The matched parameters are the required
  parameters whose trimmed name is the trimmed name of an analyzable column of the data
  sheet. When the number of required parameters is positive, the score is the number of
  matched parameters divided by the number of required parameters, times 100, as the
  program computes it: the division and the multiplication are those of binary64
  numbers, and the score differs from the exact value by at most the fraction \<open>2^-51\<close>
  of it. When the list of required parameters is empty, the list of matched parameters
  is empty and the score is 0, not 100: the branch that gives 100 asks for no required
  parameter and some matched one, which never happens.
\<close>

theorem complianceScore_rule:
  assumes "jsonData \<noteq> []"
    and "find (\<lambda>h. toLowerCase env h = str ''source file'' \<or> toLowerCase env h = str ''file name'')
           (headersOf jsonData) = Some sourceFileHeader"
    and "sourceFileHeader \<noteq> []"
    and "standardData \<noteq> []"
  shows "\<exists>res. handleAnalyze env jsonData (Some standardData) = Inr (Some res) \<and>
     (let required = standardParamsOf env standardData;
          analyzable = filter (\<lambda>h. toLowerCase env h \<notin> set excludedColumns) (headersOf jsonData);
          m = length (filter (\<lambda>p. trim p \<in> trim ` set analyzable) required)
      in mset (matchedParams res) = mset (filter (\<lambda>p. trim p \<in> trim ` set analyzable) required)
         \<and> length (matchedParams res) = m
         \<and> (length required > 0 \<longrightarrow>
               complianceScore res
                 = doubleValue (doubleTimes (doubleDivide m (length required)) 100)
               \<and> \<bar>complianceScore res - real m / real (length required) * 100\<bar>
                   \<le> (real m / real (length required) * 100) / 2 ^ 51)
         \<and> (required = [] \<longrightarrow> matchedParams res = [] \<and> complianceScore res = 0)
         \<and> \<not> (length required = 0 \<and> length (matchedParams res) > 0))"
proof -
  let ?hs = "filter (\<lambda>h. toLowerCase env h \<notin> set excludedColumns) (headersOf jsonData)"
  let ?req = "standardParamsOf env standardData"
  let ?matched = "filter (\<lambda>p. trim p \<in> trim ` set ?hs) ?req"
  let ?res = "compliance env ?hs ?req"
  have run: "handleAnalyze env jsonData (Some standardData) = Inr (Some ?res)"
    using assms by (simp add: handleAnalyze_def Let_def)
  have mp: "matchedParams ?res = sortBy (localeCompare env) ?matched"
    by (simp add: compliance_def Let_def)
  have ms: "mset (matchedParams ?res) = mset ?matched"
    unfolding mp by (rule mset_sortBy)
  have len: "length (matchedParams ?res) = length ?matched"
    unfolding mp by (rule length_sortBy)
  have sc: "complianceScore ?res =
      (if length ?req > 0
       then doubleValue (doubleTimes (doubleDivide (length ?matched) (length ?req)) 100)
       else (if length ?matched > 0 then 100 else 0))"
    by (simp add: compliance_def Let_def)
  have pos: "complianceScore ?res
               = doubleValue (doubleTimes (doubleDivide (length ?matched) (length ?req)) 100)
             \<and> \<bar>complianceScore ?res - real (length ?matched) / real (length ?req) * 100\<bar>
                 \<le> (real (length ?matched) / real (length ?req) * 100) / 2 ^ 51"
    if "length ?req > 0"
    using that score_accuracy[OF that, of "length ?matched"] by (simp only: sc if_True simp_thms)
  have e: "matchedParams ?res = [] \<and> complianceScore ?res = 0" if "?req = []"
    using that by (simp add: compliance_def Let_def sortBy_def)
  have unreachable: "\<not> (length ?req = 0 \<and> length (matchedParams ?res) > 0)"
    using e by auto
  have posI: "length ?req > 0 \<longrightarrow>
      complianceScore ?res
        = doubleValue (doubleTimes (doubleDivide (length ?matched) (length ?req)) 100)
      \<and> \<bar>complianceScore ?res - real (length ?matched) / real (length ?req) * 100\<bar>
          \<le> (real (length ?matched) / real (length ?req) * 100) / 2 ^ 51"
    using pos by blast
  have eI: "?req = [] \<longrightarrow> matchedParams ?res = [] \<and> complianceScore ?res = 0"
    using e by blast
  show ?thesis
    unfolding Let_def
    by (intro exI[of _ ?res] conjI) (rule run ms len posI eI unreachable)+
qed

text \<open>
  A data sheet with the columns \<open>Width\<close> and \<open>Height\<close>, against a LOIN sheet that
  lists no parameter and against one that lists \<open>Width\<close>, \<open>Height\<close> and \<open>Depth\<close>.
\<close>

lemma example_source_header:
  "find (\<lambda>h. toLowerCase asciiEnv h = str ''source file'' \<or> toLowerCase asciiEnv h = str ''file name'')
     (headersOf [[(str ''Source File'', JStr (str ''a.rvt'')), (str ''Width'', JNum 1), (str ''Height'', JNum 2)]]) = Some (str ''Source File'')"
  by (simp add: string_eval env_eval value_eval split del: if_split)

lemma example_no_parameters:
  "standardParamsOf asciiEnv [[(str ''LOIN Parameter'', JStr [])]] = []"
  by (simp add: string_eval env_eval value_eval compliance_eval split del: if_split)

lemma example_three_parameters:
  "standardParamsOf asciiEnv
         [[(str ''LOIN Parameter'', JStr (str ''Width''))], [(str ''LOIN Parameter'', JStr (str ''Height''))],
           [(str ''LOIN Parameter'', JStr (str ''Depth''))]]
       = [str ''Width'', str ''Height'', str ''Depth'']"
  by (simp add: string_eval env_eval value_eval compliance_eval split del: if_split)

lemma example_score_zero:
  "handleAnalyze asciiEnv [[(str ''Source File'', JStr (str ''a.rvt'')), (str ''Width'', JNum 1), (str ''Height'', JNum 2)]]
        (Some [[(str ''LOIN Parameter'', JStr [])]])
       = Inr (Some \<lparr>matchedParams = [], missingParams = [],
                     extraParams = [str ''Height'', str ''Width''], complianceScore = 0\<rparr>)"
  by (simp add: string_eval env_eval value_eval compliance_eval split del: if_split)

lemma example_score_2_of_3:
  "handleAnalyze asciiEnv [[(str ''Source File'', JStr (str ''a.rvt'')), (str ''Width'', JNum 1), (str ''Height'', JNum 2)]]
        (Some [[(str ''LOIN Parameter'', JStr (str ''Width''))], [(str ''LOIN Parameter'', JStr (str ''Height''))],
           [(str ''LOIN Parameter'', JStr (str ''Depth''))]])
       = Inr (Some \<lparr>matchedParams = [str ''Height'', str ''Width''],
                     missingParams = [str ''Depth''], extraParams = [],
                     complianceScore = doubleValue (doubleTimes (doubleDivide 2 3) 100)\<rparr>)"
  apply (simp add: string_eval env_eval value_eval compliance_eval split del: if_split)
  apply (simp only: numeral_2_eq_2 numeral_3_eq_3)
  done

theorem complianceScore_rule_witness:
  "find (\<lambda>h. toLowerCase asciiEnv h = str ''source file'' \<or> toLowerCase asciiEnv h = str ''file name'')
     (headersOf [[(str ''Source File'', JStr (str ''a.rvt'')), (str ''Width'', JNum 1), (str ''Height'', JNum 2)]]) = Some (str ''Source File'')
   \<and> standardParamsOf asciiEnv [[(str ''LOIN Parameter'', JStr [])]] = []
   \<and> handleAnalyze asciiEnv [[(str ''Source File'', JStr (str ''a.rvt'')), (str ''Width'', JNum 1), (str ''Height'', JNum 2)]]
        (Some [[(str ''LOIN Parameter'', JStr [])]])
       = Inr (Some \<lparr>matchedParams = [], missingParams = [],
                     extraParams = [str ''Height'', str ''Width''], complianceScore = 0\<rparr>)
   \<and> standardParamsOf asciiEnv
         [[(str ''LOIN Parameter'', JStr (str ''Width''))], [(str ''LOIN Parameter'', JStr (str ''Height''))],
           [(str ''LOIN Parameter'', JStr (str ''Depth''))]]
       = [str ''Width'', str ''Height'', str ''Depth'']
   \<and> handleAnalyze asciiEnv [[(str ''Source File'', JStr (str ''a.rvt'')), (str ''Width'', JNum 1), (str ''Height'', JNum 2)]]
        (Some [[(str ''LOIN Parameter'', JStr (str ''Width''))], [(str ''LOIN Parameter'', JStr (str ''Height''))],
           [(str ''LOIN Parameter'', JStr (str ''Depth''))]])
       = Inr (Some \<lparr>matchedParams = [str ''Height'', str ''Width''],
                     missingParams = [str ''Depth''], extraParams = [],
                     complianceScore = 2345624805922133 / 35184372088832\<rparr>)"
proof -
  have sheet: "[[(str ''Source File'', JStr (str ''a.rvt'')), (str ''Width'', JNum 1), (str ''Height'', JNum 2)]] \<noteq> []"
    by simp
  have header: "str ''Source File'' \<noteq> []"
    by (rule str_not_Nil)
  have loin0: "[[(str ''LOIN Parameter'', JStr [])]] \<noteq> []"
    by simp
  have loin3: "[[(str ''LOIN Parameter'', JStr (str ''Width''))], [(str ''LOIN Parameter'', JStr (str ''Height''))],
           [(str ''LOIN Parameter'', JStr (str ''Depth''))]] \<noteq> []"
    by simp
  have none: "\<exists>res. handleAnalyze asciiEnv [[(str ''Source File'', JStr (str ''a.rvt'')), (str ''Width'', JNum 1), (str ''Height'', JNum 2)]]
        (Some [[(str ''LOIN Parameter'', JStr [])]]) = Inr (Some res)
      \<and> (standardParamsOf asciiEnv [[(str ''LOIN Parameter'', JStr [])]] = []
           \<longrightarrow> matchedParams res = [] \<and> complianceScore res = 0)"
    using complianceScore_rule [OF sheet example_source_header header loin0]
    unfolding Let_def
    apply (elim exE conjE)
    apply (rule exI, rule conjI, assumption, assumption)
    done
  have three: "\<exists>res. handleAnalyze asciiEnv [[(str ''Source File'', JStr (str ''a.rvt'')), (str ''Width'', JNum 1), (str ''Height'', JNum 2)]]
        (Some [[(str ''LOIN Parameter'', JStr (str ''Width''))], [(str ''LOIN Parameter'', JStr (str ''Height''))],
           [(str ''LOIN Parameter'', JStr (str ''Depth''))]]) = Inr (Some res)
      \<and> length (matchedParams res) = length (filter (\<lambda>p. trim p \<in> trim ` set (filter (\<lambda>h. toLowerCase asciiEnv h \<notin> set excludedColumns) (headersOf [[(str ''Source File'', JStr (str ''a.rvt'')), (str ''Width'', JNum 1), (str ''Height'', JNum 2)]]))) (standardParamsOf asciiEnv
         [[(str ''LOIN Parameter'', JStr (str ''Width''))], [(str ''LOIN Parameter'', JStr (str ''Height''))],
           [(str ''LOIN Parameter'', JStr (str ''Depth''))]]))"
    using complianceScore_rule [OF sheet example_source_header header loin3]
    unfolding Let_def
    apply (elim exE conjE)
    apply (rule exI, rule conjI, assumption, assumption)
    done
  from none three show ?thesis
    by (simp only: example_source_header example_no_parameters example_three_parameters
          example_score_zero example_score_2_of_3 score_2_of_3 simp_thms)
qed

end
